theory Spec2Isabelle
  imports Main
begin

section \<open>The resilient API client of the mobile app (\<^verbatim>\<open>mobile-app/src/config/api.js\<close>)\<close>

text \<open>
  The module keeps two process-wide variables (the current base URL and its index in the
  list of development hosts), talks to the network through \<^verbatim>\<open>fetch\<close> and to the
  device through \<^verbatim>\<open>AsyncStorage\<close>. The embedding passes the module state explicitly, and
  reads the network from a \<^emph>\<open>world\<close>: a function giving the outcome of the n-th request the
  module issues. Every theorem quantifies over the world, so it holds for every behaviour
  of the servers. A single call is followed from start to end; interleavings of several
  calls in flight are outside the model. Console output is not modelled.
\<close>

subsection \<open>Strings\<close>

text \<open>
  A string is the list of the bytes of its UTF-8 encoding. \<^verbatim>\<open>String.prototype.includes\<close> is
  a search for a contiguous run of characters; the texts the module searches for are ASCII,
  for which the search on bytes and the search on UTF-16 code units agree.
\<close>

fun str_includes :: "string \<Rightarrow> string \<Rightarrow> bool" where
  "str_includes [] sub = (sub = [])"
| "str_includes (c # cs) sub = (take (length sub) (c # cs) = sub \<or> str_includes cs sub)"

text \<open>
  The white space that \<^verbatim>\<open>trim\<close> removes: the ECMAScript WhiteSpace and LineTerminator code
  points (TAB, LF, VT, FF, CR, SP, U+00A0, U+1680, U+2000 to U+200A, U+2028, U+2029, U+202F,
  U+205F, U+3000, U+FEFF), each in its UTF-8 encoding.
\<close>

definition white_space :: "string list" where
  "white_space =
     [[CHR 0x09], [CHR 0x0A], [CHR 0x0B], [CHR 0x0C], [CHR 0x0D], [CHR 0x20],
      [CHR 0xC2, CHR 0xA0], [CHR 0xE1, CHR 0x9A, CHR 0x80],
      [CHR 0xE2, CHR 0x80, CHR 0x80], [CHR 0xE2, CHR 0x80, CHR 0x81],
      [CHR 0xE2, CHR 0x80, CHR 0x82], [CHR 0xE2, CHR 0x80, CHR 0x83],
      [CHR 0xE2, CHR 0x80, CHR 0x84], [CHR 0xE2, CHR 0x80, CHR 0x85],
      [CHR 0xE2, CHR 0x80, CHR 0x86], [CHR 0xE2, CHR 0x80, CHR 0x87],
      [CHR 0xE2, CHR 0x80, CHR 0x88], [CHR 0xE2, CHR 0x80, CHR 0x89],
      [CHR 0xE2, CHR 0x80, CHR 0x8A], [CHR 0xE2, CHR 0x80, CHR 0xA8],
      [CHR 0xE2, CHR 0x80, CHR 0xA9], [CHR 0xE2, CHR 0x80, CHR 0xAF],
      [CHR 0xE2, CHR 0x81, CHR 0x9F], [CHR 0xE3, CHR 0x80, CHR 0x80],
      [CHR 0xEF, CHR 0xBB, CHR 0xBF]]"

fun strip_one :: "string list \<Rightarrow> string \<Rightarrow> string option" where
  "strip_one [] s = None"
| "strip_one (w # ws) s =
     (if w \<noteq> [] \<and> take (length w) s = w then Some (drop (length w) s) else strip_one ws s)"

function trimStart :: "string \<Rightarrow> string" where
  "trimStart s = (case strip_one white_space s of None \<Rightarrow> s | Some t \<Rightarrow> trimStart t)"
  by pat_completeness auto
termination
proof (relation "measure length")
  show "wf (measure length)" by simp
next
  fix s t :: string
  have shorter: "strip_one ws s = Some t \<Longrightarrow> length t < length s" for ws
  proof (induction ws)
    case Nil
    then show ?case by simp
  next
    case (Cons w ws)
    show ?case
    proof (cases "w \<noteq> [] \<and> take (length w) s = w")
      case True
      then have "s \<noteq> []" by auto
      with True Cons.prems show ?thesis by auto
    next
      case False
      with Cons show ?thesis by auto
    qed
  qed
  assume "strip_one white_space s = Some t"
  then show "(t, s) \<in> measure length"
    using shorter by simp
qed

declare trimStart.simps [simp del]

text \<open>
  The end of the string is trimmed on the reversed bytes, against the reversed encodings.
\<close>

function trimEnd_rev :: "string \<Rightarrow> string" where
  "trimEnd_rev s = (case strip_one (map rev white_space) s of None \<Rightarrow> s | Some t \<Rightarrow> trimEnd_rev t)"
  by pat_completeness auto
termination
proof (relation "measure length")
  show "wf (measure length)" by simp
next
  fix s t :: string
  have shorter: "strip_one ws s = Some t \<Longrightarrow> length t < length s" for ws
  proof (induction ws)
    case Nil
    then show ?case by simp
  next
    case (Cons w ws)
    show ?case
    proof (cases "w \<noteq> [] \<and> take (length w) s = w")
      case True
      then have "s \<noteq> []" by auto
      with True Cons.prems show ?thesis by auto
    next
      case False
      with Cons show ?thesis by auto
    qed
  qed
  assume "strip_one (map rev white_space) s = Some t"
  then show "(t, s) \<in> measure length"
    using shorter by simp
qed

declare trimEnd_rev.simps [simp del]

definition trim :: "string \<Rightarrow> string" where
  "trim s = rev (trimEnd_rev (rev (trimStart s)))"

text \<open>The decimal rendering of a natural number, as a template literal gives it.\<close>

function decimal :: "nat \<Rightarrow> string" where
  "decimal n = (if n < 10 then [char_of (48 + n)] else decimal (n div 10) @ [char_of (48 + n mod 10)])"
  by pat_completeness auto
termination
  by (relation "measure id") auto

declare decimal.simps [simp del]

subsection \<open>Values and errors\<close>

text \<open>
  The values \<^verbatim>\<open>JSON.parse\<close> can return. A number is kept as its canonical rendering (what
  \<^verbatim>\<open>String(n)\<close> gives); both zeros render as \<^verbatim>\<open>0\<close>. An object is the association list of
  its own properties, looked up with \<^const>\<open>map_of\<close>.
\<close>

datatype json =
    JNull
  | JBool bool
  | JNumber string
  | JString string
  | JArray "json list"
  | JObject "(string \<times> json) list"

text \<open>An \<^verbatim>\<open>Error\<close> object; the module only ever reads its message.\<close>

datatype error = Error (message: string)

text \<open>
  \<^verbatim>\<open>v?.message\<close> and \<^verbatim>\<open>v?.error\<close>; \<open>None\<close> is \<^verbatim>\<open>undefined\<close>. Only objects can own these
  two properties; \<open>member\<close> is used with no other name.
\<close>

fun member :: "json \<Rightarrow> string \<Rightarrow> json option" where
  "member (JObject kvs) k = map_of kvs k"
| "member _ k = None"

fun truthy :: "json \<Rightarrow> bool" where
  "truthy JNull = False"
| "truthy (JBool b) = b"
| "truthy (JNumber r) = (r \<noteq> ''0'')"
| "truthy (JString s) = (s \<noteq> [])"
| "truthy (JArray xs) = True"
| "truthy (JObject kvs) = True"

text \<open>\<^verbatim>\<open>a || b\<close> on values that may be \<^verbatim>\<open>undefined\<close>.\<close>

definition js_or :: "json option \<Rightarrow> json option \<Rightarrow> json option" where
  "js_or a b = (case a of None \<Rightarrow> b | Some v \<Rightarrow> if truthy v then a else b)"

text \<open>
  \<^verbatim>\<open>new Error(v)\<close> converts \<open>v\<close> to a string. An array is joined with commas, a \<^verbatim>\<open>null\<close>
  element giving the empty string. A plain object gives \<^verbatim>\<open>[object Object]\<close>, unless it owns
  a property \<^verbatim>\<open>toString\<close>: a parsed value is never callable, so the conversion raises a
  TypeError, whose message \<open>te\<close> depends on the engine.
\<close>

fun ToString :: "string \<Rightarrow> json \<Rightarrow> error + string"
  and join :: "string \<Rightarrow> json list \<Rightarrow> error + string" where
  "ToString te JNull = Inr ''null''"
| "ToString te (JBool b) = Inr (if b then ''true'' else ''false'')"
| "ToString te (JNumber r) = Inr r"
| "ToString te (JString s) = Inr s"
| "ToString te (JArray xs) = join te xs"
| "ToString te (JObject kvs) =
     (if map_of kvs ''toString'' = None then Inr ''[object Object]'' else Inl (Error te))"
| "join te [] = Inr []"
| "join te (x # xs) =
     (case (if x = JNull then Inr [] else ToString te x) of
        Inl e \<Rightarrow> Inl e
      | Inr a \<Rightarrow>
          (if xs = [] then Inr a
           else (case join te xs of Inl e \<Rightarrow> Inl e | Inr b \<Rightarrow> Inr (a @ '','' @ b))))"

subsection \<open>The network and the runtime\<close>

record response =
  status :: nat
  content_type :: "string option"
  body :: "error + string"

text \<open>
  \<^const>\<open>content_type\<close> is \<^verbatim>\<open>response.headers.get("content-type")\<close> (\<open>None\<close> is \<^verbatim>\<open>null\<close>) and
  \<^const>\<open>body\<close> is what \<^verbatim>\<open>response.text()\<close> settles to: the text, or the error of a failed read.
\<close>

definition ok :: "response \<Rightarrow> bool" where
  "ok r = (200 \<le> status r \<and> status r \<le> 299)"

text \<open>
  A promise settles after some milliseconds, or never.
\<close>

datatype 'a promise = Fulfils nat 'a | Rejects nat error | Pending

record world =
  fetch :: "nat \<Rightarrow> string \<Rightarrow> response promise"
  JSON_parse :: "string \<Rightarrow> error + json"
  not_primitive :: string
  not_an_object :: string

text \<open>
  \<^const>\<open>fetch\<close> \<open>w n url\<close> is the promise of the \<open>n\<close>-th request of the run (counting from 0),
  sent to \<open>url\<close>. The method, headers and body of a request are assembled once per host,
  before the loop, from the caller's arguments and the stored token, and handed to
  \<^verbatim>\<open>fetch\<close> unchanged. The model takes the caller's arguments to be well formed (a
  method string or an options object, a body that \<^verbatim>\<open>JSON.stringify\<close> accepts) and the
  stored token to be absent or a string, so that this assembly cannot fail; it then takes no
  part in the control flow, and the world may answer each request as it likes.
  \<^const>\<open>JSON_parse\<close> is the engine's parser (\<open>Inl\<close> the SyntaxError). \<^const>\<open>not_primitive\<close> and
  \<^const>\<open>not_an_object\<close> are the messages of the engine's TypeErrors for a value that has no
  string conversion and for reading a property of \<^verbatim>\<open>undefined\<close>.
\<close>

text \<open>
  \<^verbatim>\<open>Promise.race\<close> against a timer that rejects after \<open>timeoutMs\<close>: the promise wins when it
  settles strictly earlier.
\<close>

fun withTimeout :: "'a promise \<Rightarrow> nat \<Rightarrow> error + 'a" where
  "withTimeout (Fulfils t v) timeoutMs = (if t < timeoutMs then Inr v else Inl (Error ''Request timeout''))"
| "withTimeout (Rejects t e) timeoutMs = (if t < timeoutMs then Inl e else Inl (Error ''Request timeout''))"
| "withTimeout Pending timeoutMs = Inl (Error ''Request timeout'')"

subsection \<open>Module state\<close>

definition DEVELOPMENT_API_URLS :: "string list" where
  "DEVELOPMENT_API_URLS =
     [''http://192.168.100.46:3000/api'', ''http://192.168.100.1:3000/api'', ''http://localhost:3000/api'']"

definition MAX_RETRIES :: nat where
  "MAX_RETRIES = 3"

definition TIMEOUT_MS :: nat where
  "TIMEOUT_MS = 10000"

text \<open>
  \<open>None\<close> in \<open>API_BASE_URL\<close> is \<^verbatim>\<open>undefined\<close>, which an array read out of range gives.
  \<open>AsyncStorage\<close> is the device's key-value store (removing a key always succeeds).
  \<open>events\<close> is the log of what the module has done on the network and the clock so far,
  oldest first: \<open>Fetch url\<close> for a call of \<^verbatim>\<open>fetch\<close>, \<open>Sleep ms\<close> for a backoff wait
  of \<open>ms\<close> milliseconds that ran to its end.
\<close>

datatype event = Fetch string | Sleep nat

record state =
  API_BASE_URL :: "string option"
  currentApiIndex :: int
  AsyncStorage :: "string \<rightharpoonup> string"
  events :: "event list"

text \<open>
  The URLs passed to \<^verbatim>\<open>fetch\<close> so far, oldest first. The request an attempt issues is
  numbered by their count.
\<close>

fun fetched :: "event list \<Rightarrow> string list" where
  "fetched [] = []"
| "fetched (Fetch url # es) = url # fetched es"
| "fetched (Sleep ms # es) = fetched es"

abbreviation requests :: "state \<Rightarrow> string list" where
  "requests s \<equiv> fetched (events s)"

definition array_get :: "'a list \<Rightarrow> int \<Rightarrow> 'a option" where
  "array_get xs i = (if 0 \<le> i \<and> i < int (length xs) then Some (xs ! nat i) else None)"

fun indexOf :: "'a list \<Rightarrow> 'a \<Rightarrow> int" where
  "indexOf [] x = - 1"
| "indexOf (y # ys) x = (if y = x then 0 else (let i = indexOf ys x in if i < 0 then - 1 else i + 1))"

text \<open>A value in a template literal: \<^verbatim>\<open>undefined\<close> prints as its name.\<close>

definition template :: "string option \<Rightarrow> string" where
  "template v = (case v of None \<Rightarrow> ''undefined'' | Some s \<Rightarrow> s)"

definition initial_state :: "(string \<rightharpoonup> string) \<Rightarrow> state" where
  "initial_state store =
     \<lparr>API_BASE_URL = array_get DEVELOPMENT_API_URLS 0, currentApiIndex = 0,
      AsyncStorage = store, events = []\<rparr>"

subsection \<open>checkServerHealth\<close>

record health =
  healthy :: bool
  health_status :: "nat option"
  health_data :: "json option"
  health_error :: "string option"

text \<open>\<^verbatim>\<open>response.json()\<close>: the text of the body, parsed.\<close>

definition response_json :: "world \<Rightarrow> response \<Rightarrow> error + json" where
  "response_json w r = (case body r of Inl e \<Rightarrow> Inl e | Inr t \<Rightarrow> JSON_parse w t)"

definition checkServerHealth :: "world \<Rightarrow> state \<Rightarrow> health \<times> state" where
  "checkServerHealth w s =
     (let url = template (API_BASE_URL s) @ ''/debug/test'';
          s1 = s\<lparr>events := events s @ [Fetch url]\<rparr>
      in case withTimeout (fetch w (length (requests s)) url) 8000 of
           Inl error \<Rightarrow>
             (\<lparr>healthy = False, health_status = None, health_data = None,
               health_error = Some (message error)\<rparr>, s1)
         | Inr response \<Rightarrow>
             if ok response then
               (case response_json w response of
                  Inl error \<Rightarrow>
                    (\<lparr>healthy = False, health_status = None, health_data = None,
                      health_error = Some (message error)\<rparr>, s1)
                | Inr data \<Rightarrow>
                    (\<lparr>healthy = True, health_status = Some (status response),
                      health_data = Some data, health_error = None\<rparr>, s1))
             else
               (\<lparr>healthy = False, health_status = Some (status response), health_data = None,
                 health_error = None\<rparr>, s1))"

subsection \<open>testMultipleIPs\<close>

datatype probe = Found string string | NoneReachable string

text \<open>
  \<open>Found url type\<close> is \<^verbatim>\<open>{success: true, url, type}\<close> and \<open>NoneReachable error\<close> is
  \<^verbatim>\<open>{success: false, error}\<close>. The loop runs from index \<open>i\<close>.
\<close>

function testMultipleIPs_from :: "world \<Rightarrow> nat \<Rightarrow> state \<Rightarrow> probe \<times> state" where
  "testMultipleIPs_from w i s =
     (if i < length DEVELOPMENT_API_URLS then
        (let testUrl = DEVELOPMENT_API_URLS ! i;
             s1 = s\<lparr>events := events s @ [Fetch (testUrl @ ''/debug/test'')]\<rparr>
         in case withTimeout (fetch w (length (requests s)) (testUrl @ ''/debug/test'')) 3000 of
              Inl error \<Rightarrow> testMultipleIPs_from w (i + 1) s1
            | Inr response \<Rightarrow>
                if ok response then
                  (Found testUrl ''development'',
                   s1\<lparr>API_BASE_URL := Some testUrl, currentApiIndex := int i\<rparr>)
                else testMultipleIPs_from w (i + 1) s1)
      else (NoneReachable ''No API endpoints are reachable'', s))"
  by pat_completeness auto
termination
  by (relation "measure (\<lambda>(w, i, s). length DEVELOPMENT_API_URLS - i)") auto

declare testMultipleIPs_from.simps [simp del]

definition testMultipleIPs :: "world \<Rightarrow> state \<Rightarrow> probe \<times> state" where
  "testMultipleIPs w s = testMultipleIPs_from w 0 s"

subsection \<open>makeApiRequest\<close>

definition cross_mark :: string where
  "cross_mark = [CHR 0xE2, CHR 0x9D, CHR 0x8C]"

definition html_page_message :: "string \<Rightarrow> string" where
  "html_page_message baseUrl =
     cross_mark @ '' Server returned HTML error page. Check if API server is running at '' @ baseUrl"

text \<open>
  The inner \<^verbatim>\<open>try\<close>: read the text, and parse it unless it trims to the empty string.
\<close>

definition read_responseData :: "world \<Rightarrow> response \<Rightarrow> error + json" where
  "read_responseData w r =
     (case body r of
        Inl e \<Rightarrow> Inl e
      | Inr responseText \<Rightarrow>
          if trim responseText \<noteq> [] then JSON_parse w responseText else Inr (JObject []))"

definition errorMessage :: "json \<Rightarrow> nat \<Rightarrow> json option" where
  "errorMessage responseData st =
     js_or (js_or (member responseData ''message'') (member responseData ''error''))
       (Some (JString (''HTTP '' @ decimal st)))"

text \<open>
  \<^verbatim>\<open>throw new Error(v)\<close> for a value that may be \<^verbatim>\<open>undefined\<close> (then the message is empty).
\<close>

definition new_Error :: "world \<Rightarrow> json option \<Rightarrow> error" where
  "new_Error w v =
     (case v of
        None \<Rightarrow> Error []
      | Some x \<Rightarrow> (case ToString (not_primitive w) x of Inl e \<Rightarrow> e | Inr m \<Rightarrow> Error m))"

text \<open>
  The body of the \<^verbatim>\<open>try\<close> of one iteration: one request, then the classification of the
  response. \<open>Inl\<close> is the error the \<^verbatim>\<open>catch\<close> receives, \<open>Inr\<close> the returned data.
\<close>

definition attempt_once :: "world \<Rightarrow> string option \<Rightarrow> string \<Rightarrow> state \<Rightarrow> (error + json) \<times> state" where
  "attempt_once w baseUrl url s =
     (let s1 = s\<lparr>events := events s @ [Fetch url]\<rparr>
      in case withTimeout (fetch w (length (requests s)) url) TIMEOUT_MS of
           Inl error \<Rightarrow> (Inl error, s1)
         | Inr response \<Rightarrow>
             if str_includes (case content_type response of None \<Rightarrow> [] | Some c \<Rightarrow> c) ''text/html''
             then (Inl (Error (html_page_message (template baseUrl))), s1)
             else
               (case read_responseData w response of
                  Inl parseError \<Rightarrow>
                    (Inl (Error (''Invalid JSON response: '' @ message parseError)), s1)
                | Inr responseData \<Rightarrow>
                    if \<not> ok response then
                      (if status response = 401 then
                         (Inl (Error ''Authentication failed''),
                          s1\<lparr>AsyncStorage := (AsyncStorage s1)(''user'' := None)\<rparr>)
                       else if status response = 404 then
                         (Inl (Error ''API endpoint not found''), s1)
                       else if status response = 500 then
                         (Inl (Error ''Server internal error''), s1)
                       else
                         (Inl (new_Error w (errorMessage responseData (status response))), s1))
                    else (Inr responseData, s1)))"

text \<open>
  The \<^verbatim>\<open>for\<close> loop from iteration \<open>attempt\<close>, with the \<^verbatim>\<open>lastError\<close> assigned so far
  (\<open>None\<close> is \<^verbatim>\<open>undefined\<close>). \<open>Inl\<close> is the value of the final \<^verbatim>\<open>throw lastError\<close>.
\<close>

function retry_loop ::
  "world \<Rightarrow> string option \<Rightarrow> string \<Rightarrow> nat \<Rightarrow> error option \<Rightarrow> state \<Rightarrow> (error option + json) \<times> state" where
  "retry_loop w baseUrl url attempt lastError s =
     (if attempt \<le> MAX_RETRIES then
        (case attempt_once w baseUrl url s of
           (Inr responseData, s1) \<Rightarrow> (Inr responseData, s1)
         | (Inl error, s1) \<Rightarrow>
             if str_includes (message error) ''Authentication failed'' \<or>
                str_includes (message error) ''not found'' \<or>
                attempt = MAX_RETRIES
             then (Inl (Some error), s1)
             else
               retry_loop w baseUrl url (attempt + 1) (Some error)
                 (if attempt < MAX_RETRIES then s1\<lparr>events := events s1 @ [Sleep (attempt * 1000)]\<rparr> else s1))
      else (Inl lastError, s))"
  by pat_completeness auto
termination
  by (relation "measure (\<lambda>(w, baseUrl, url, attempt, lastError, s). MAX_RETRIES + 1 - attempt)") auto

declare retry_loop.simps [simp del]

definition makeApiRequest ::
  "world \<Rightarrow> string option \<Rightarrow> string \<Rightarrow> state \<Rightarrow> (error option + json) \<times> state" where
  "makeApiRequest w baseUrl endpoint s = retry_loop w baseUrl (template baseUrl @ endpoint) 1 None s"

subsection \<open>apiCall\<close>

text \<open>
  The fallback loop ends in one of three ways: a host answered and the data is returned, the
  hosts are exhausted (with the list of attempted URLs), or reading the message of a thrown
  \<^verbatim>\<open>undefined\<close> inside the \<^verbatim>\<open>catch\<close> raised a TypeError.
\<close>

datatype fallback = Returned json | Exhausted "string option list" | Raised error

fun fallback_loop ::
  "world \<Rightarrow> string list \<Rightarrow> string \<Rightarrow> string option list \<Rightarrow> state \<Rightarrow> fallback \<times> state" where
  "fallback_loop w [] endpoint attemptedUrls s = (Exhausted attemptedUrls, s)"
| "fallback_loop w (devUrl # devUrls) endpoint attemptedUrls s =
     (if Some devUrl = API_BASE_URL s then fallback_loop w devUrls endpoint attemptedUrls s
      else
        (case makeApiRequest w (Some devUrl) endpoint s of
           (Inr result, s1) \<Rightarrow>
             (Returned result,
              s1\<lparr>API_BASE_URL := Some devUrl,
                 currentApiIndex := indexOf DEVELOPMENT_API_URLS devUrl\<rparr>)
         | (Inl None, s1) \<Rightarrow> (Raised (Error (not_an_object w)), s1)
         | (Inl (Some error), s1) \<Rightarrow>
             fallback_loop w devUrls endpoint (attemptedUrls @ [Some devUrl]) s1))"

definition apiCall :: "world \<Rightarrow> string \<Rightarrow> state \<Rightarrow> (error + json) \<times> state" where
  "apiCall w endpoint s =
     (case makeApiRequest w (API_BASE_URL s) endpoint s of
        (Inr result, s1) \<Rightarrow> (Inr result, s1)
      | (Inl None, s1) \<Rightarrow> (Inl (Error (not_an_object w)), s1)
      | (Inl (Some lastError), s1) \<Rightarrow>
          (case fallback_loop w DEVELOPMENT_API_URLS endpoint [API_BASE_URL s1] s1 of
             (Returned result, s2) \<Rightarrow> (Inr result, s2)
           | (Raised error, s2) \<Rightarrow> (Inl error, s2)
           | (Exhausted attemptedUrls, s2) \<Rightarrow>
               (Inl (Error (''API call failed: '' @ message lastError @ ''. Tried '' @
                            decimal (length attemptedUrls) @ '' endpoints.'')), s2)))"

subsection \<open>switchToNextApiUrl\<close>

definition switchToNextApiUrl :: "state \<Rightarrow> string option \<times> state" where
  "switchToNextApiUrl s =
     (if currentApiIndex s < int (length DEVELOPMENT_API_URLS) - 1 then
        (let s1 = s\<lparr>currentApiIndex := currentApiIndex s + 1\<rparr>;
             s2 = s1\<lparr>API_BASE_URL := array_get DEVELOPMENT_API_URLS (currentApiIndex s1)\<rparr>
         in (API_BASE_URL s2, s2))
      else (None, s))"

subsection \<open>Observations used in the statements\<close>

text \<open>
  What the attempt that issues the \<open>n\<close>-th request, to \<open>url\<close>, gets back, as far as the first
  steps of the \<^verbatim>\<open>try\<close> block tell it apart: no response within the timeout, an HTML
  page, a body that cannot be read or parsed, or a status with parsed data.
\<close>

datatype reply = NoResponse error | HtmlPage | Unreadable error | Json nat json

definition reply :: "world \<Rightarrow> nat \<Rightarrow> string \<Rightarrow> reply" where
  "reply w n url =
     (case withTimeout (fetch w n url) TIMEOUT_MS of
        Inl e \<Rightarrow> NoResponse e
      | Inr r \<Rightarrow>
          if str_includes (case content_type r of None \<Rightarrow> [] | Some c \<Rightarrow> c) ''text/html'' then HtmlPage
          else (case read_responseData w r of Inl e \<Rightarrow> Unreadable e | Inr d \<Rightarrow> Json (status r) d))"

text \<open>
  The status of the response the \<open>n\<close>-th request receives, if one arrives in time.
\<close>

definition received_status :: "world \<Rightarrow> nat \<Rightarrow> string \<Rightarrow> nat option" where
  "received_status w n url =
     (case withTimeout (fetch w n url) TIMEOUT_MS of Inl e \<Rightarrow> None | Inr r \<Rightarrow> Some (status r))"

text \<open>
  The error an attempt against \<open>baseUrl\<close> raises on a reply (\<open>None\<close> when it returns the
  data), and the errors on which the \<^verbatim>\<open>catch\<close> leaves the loop whatever the attempt number.
\<close>

definition failure :: "world \<Rightarrow> string option \<Rightarrow> reply \<Rightarrow> error option" where
  "failure w baseUrl rp =
     (case rp of
        NoResponse e \<Rightarrow> Some e
      | HtmlPage \<Rightarrow> Some (Error (html_page_message (template baseUrl)))
      | Unreadable e \<Rightarrow> Some (Error (''Invalid JSON response: '' @ message e))
      | Json st d \<Rightarrow>
          if 200 \<le> st \<and> st \<le> 299 then None
          else if st = 401 then Some (Error ''Authentication failed'')
          else if st = 404 then Some (Error ''API endpoint not found'')
          else if st = 500 then Some (Error ''Server internal error'')
          else Some (new_Error w (errorMessage d st)))"

definition non_retryable :: "error \<Rightarrow> bool" where
  "non_retryable e =
     (str_includes (message e) ''Authentication failed'' \<or> str_includes (message e) ''not found'')"

text \<open>
  The \<open>n\<close>-th request, sent to \<open>url\<close> in an attempt against \<open>baseUrl\<close>, fails with an
  error on which the loop goes on (unless the attempt is the last).
\<close>

definition fails_retryably :: "world \<Rightarrow> string option \<Rightarrow> nat \<Rightarrow> string \<Rightarrow> bool" where
  "fails_retryably w baseUrl n url =
     (case failure w baseUrl (reply w n url) of None \<Rightarrow> False | Some e \<Rightarrow> \<not> non_retryable e)"

text \<open>
  Three attempts with the two backoff waits between them, as the log shows them.
\<close>

definition three_attempts :: "string \<Rightarrow> event list" where
  "three_attempts url = [Fetch url, Sleep 1000, Fetch url, Sleep 2000, Fetch url]"



text \<open>
  Between two states of a run: the log of requests has grown, and if the user record was
  already absent, or one of the new requests was answered by a 401, the record is absent.
\<close>

definition deleted_on_401 :: "world \<Rightarrow> state \<Rightarrow> state \<Rightarrow> bool" where
  "deleted_on_401 w s s' =
     (\<exists>new. requests s' = requests s @ new \<and>
        (AsyncStorage s ''user'' = None \<or>
         (\<exists>n d. n < length new \<and> reply w (length (requests s) + n) (new ! n) = Json 401 d)
         \<longrightarrow> AsyncStorage s' ''user'' = None))"

definition index_in_bounds :: "state \<Rightarrow> bool" where
  "index_in_bounds s = (0 \<le> currentApiIndex s \<and> currentApiIndex s < int (length DEVELOPMENT_API_URLS))"

text \<open>
  The fallback loop returned \<open>res\<close> from state \<open>s\<close>: one of the hosts in \<open>urls\<close>, other
  than the current one, was tried from a later state \<open>t\<close> of the same call, its
  \<^verbatim>\<open>makeApiRequest\<close> returned \<open>res\<close>, and the final state is the state after that request
  with the pointer moved to this host.
\<close>

definition promoted :: "world \<Rightarrow> string \<Rightarrow> string list \<Rightarrow> state \<Rightarrow> json \<Rightarrow> state \<Rightarrow> bool" where
  "promoted w endpoint urls s res s' =
     (\<exists>devUrl t t' older.
        devUrl \<in> set urls \<and> Some devUrl \<noteq> API_BASE_URL s \<and>
        API_BASE_URL t = API_BASE_URL s \<and> requests t = requests s @ older \<and>
        makeApiRequest w (Some devUrl) endpoint t = (Inr res, t') \<and>
        s' = t'\<lparr>API_BASE_URL := Some devUrl,
                currentApiIndex := indexOf DEVELOPMENT_API_URLS devUrl\<rparr>)"

subsection \<open>Sample worlds\<close>

text \<open>
  Concrete servers for the examples. \<open>sample_parse\<close> stands for the engine's parser on the
  few texts the examples send: it agrees with \<^verbatim>\<open>JSON.parse\<close> on the three JSON texts, and
  rejects the others, as \<^verbatim>\<open>JSON.parse\<close> rejects the empty text and plain prose. The
  wording of the messages is the engine's own; for the text \<^verbatim>\<open>not found\<close> it is that of
  V8, which quotes the text it could not parse.
\<close>

definition v8_not_found_message :: string where
  \<open>v8_not_found_message =
     ''Unexpected token '' @ [CHR 0x27, CHR ''o'', CHR 0x27] @ '', "not found" is not valid JSON''\<close>

definition sample_parse :: "string \<Rightarrow> error + json" where
  \<open>sample_parse t =
     (if t = ''{}'' then Inr (JObject [])
      else if t = ''{"ok":true}'' then Inr (JObject [(''ok'', JBool True)])
      else if t = ''{"message":"not found"}'' then Inr (JObject [(''message'', JString ''not found'')])
      else if t = [] then Inl (Error ''Unexpected end of JSON input'')
      else if t = ''not found'' then Inl (Error v8_not_found_message)
      else Inl (Error ''Unexpected token''))\<close>

definition sample_world :: "(string \<Rightarrow> response promise) \<Rightarrow> world" where
  "sample_world f =
     \<lparr>fetch = (\<lambda>n url. f url), JSON_parse = sample_parse,
      not_primitive = ''Cannot convert object to primitive value'',
      not_an_object = ''Cannot read property of undefined''\<rparr>"

definition json_response :: "nat \<Rightarrow> string \<Rightarrow> response" where
  "json_response st t =
     \<lparr>status = st, content_type = Some ''application/json; charset=utf-8'', body = Inr t\<rparr>"

definition html_response :: "nat \<Rightarrow> response" where
  "html_response st =
     \<lparr>status = st, content_type = Some ''text/html; charset=utf-8'', body = Inr ''<!DOCTYPE html>''\<rparr>"

definition plain_response :: "nat \<Rightarrow> string \<Rightarrow> response" where
  "plain_response st t = \<lparr>status = st, content_type = Some ''text/plain'', body = Inr t\<rparr>"

text \<open>Every request is answered after 20 ms by the same response.\<close>

definition always :: "response \<Rightarrow> world" where
  "always r = sample_world (\<lambda>url. Fulfils 20 r)"

text \<open>The first configured host behaves one way, every other host another way.\<close>

definition first_host_then :: "response promise \<Rightarrow> response promise \<Rightarrow> world" where
  "first_host_then p q =
     sample_world (\<lambda>url. if take 30 url = ''http://192.168.100.46:3000/api'' then p else q)"

definition signed_in :: state where
  \<open>signed_in = initial_state [''user'' \<mapsto> ''{"token":"abc"}'']\<close>

text \<open>What an example shows of a result and its final state.\<close>

definition observe :: "'a \<times> state \<Rightarrow> 'a \<times> string option \<times> int \<times> event list \<times> string option" where
  "observe p =
     (fst p, API_BASE_URL (snd p), currentApiIndex (snd p), events (snd p),
      AsyncStorage (snd p) ''user'')"

text \<open>The first host never answers; every other host answers 200.\<close>

definition first_host_down :: world where
  \<open>first_host_down = first_host_then Pending (Fulfils 20 (json_response 200 ''{"ok":true}''))\<close>

text \<open>Every host answers 500 with an empty object.\<close>

definition all_500 :: world where
  "all_500 = always (json_response 500 ''{}'')"

text \<open>The first host answers 500, every other host 404.\<close>

definition first_500_rest_404 :: world where
  "first_500_rest_404 =
     first_host_then (Fulfils 20 (json_response 500 ''{}'')) (Fulfils 20 (json_response 404 ''{}''))"


text \<open>Every host answers 200 with a plain text that is not JSON.\<close>

definition all_unparseable :: world where
  "all_unparseable = always (plain_response 200 ''Bad Gateway'')"

text \<open>Every host answers with the HTML error page of a proxy.\<close>

definition all_html :: world where
  "all_html = always (html_response 502)"

text \<open>Every host answers 500 with a JSON body whose message reads \<^verbatim>\<open>not found\<close>.\<close>

definition all_500_not_found :: world where
  \<open>all_500_not_found = always (json_response 500 ''{"message":"not found"}'')\<close>

text \<open>Every host answers 204 with an empty body.\<close>

definition all_204 :: world where
  "all_204 = always (json_response 204 [])"

text \<open>Every host answers 400 with a JSON body whose message reads \<^verbatim>\<open>not found\<close>.\<close>

definition all_400_not_found :: world where
  \<open>all_400_not_found = always (json_response 400 ''{"message":"not found"}'')\<close>

text \<open>Every host answers 200 with a JSON object.\<close>

definition all_ok :: world where
  \<open>all_ok = always (json_response 200 ''{"ok":true}'')\<close>

text \<open>Every host answers 500 with the plain text \<^verbatim>\<open>not found\<close>.\<close>

definition all_500_plain_not_found :: world where
  "all_500_plain_not_found = always (plain_response 500 ''not found'')"

text \<open>Every host answers 500 with an HTML error page.\<close>

definition all_500_html :: world where
  "all_500_html = always (html_response 500)"

section \<open>Properties\<close>

subsection \<open>One attempt and the retry loop\<close>

lemma fetched_append [simp]: "fetched (xs @ ys) = fetched xs @ fetched ys"
  by (induction xs rule: fetched.induct) simp_all

lemma attempt_once_frame:
  assumes "attempt_once w b url s = (r, s')"
  shows "events s' = events s @ [Fetch url] \<and>
         API_BASE_URL s' = API_BASE_URL s \<and> currentApiIndex s' = currentApiIndex s"
  using assms
  by (auto simp: attempt_once_def Let_def split: sum.splits if_splits)

lemma attempt_once_reply:
  "attempt_once w b url s =
     (case reply w (length (requests s)) url of
        NoResponse e \<Rightarrow> (Inl e, s\<lparr>events := events s @ [Fetch url]\<rparr>)
      | HtmlPage \<Rightarrow> (Inl (Error (html_page_message (template b))), s\<lparr>events := events s @ [Fetch url]\<rparr>)
      | Unreadable e \<Rightarrow>
          (Inl (Error (''Invalid JSON response: '' @ message e)), s\<lparr>events := events s @ [Fetch url]\<rparr>)
      | Json st d \<Rightarrow>
          if 200 \<le> st \<and> st \<le> 299 then (Inr d, s\<lparr>events := events s @ [Fetch url]\<rparr>)
          else if st = 401 then
            (Inl (Error ''Authentication failed''),
             s\<lparr>events := events s @ [Fetch url], AsyncStorage := (AsyncStorage s)(''user'' := None)\<rparr>)
          else if st = 404 then (Inl (Error ''API endpoint not found''), s\<lparr>events := events s @ [Fetch url]\<rparr>)
          else if st = 500 then (Inl (Error ''Server internal error''), s\<lparr>events := events s @ [Fetch url]\<rparr>)
          else (Inl (new_Error w (errorMessage d st)), s\<lparr>events := events s @ [Fetch url]\<rparr>))"
  by (simp add: attempt_once_def reply_def Let_def ok_def split: sum.splits)

lemma retry_loop_success:
  "a \<le> MAX_RETRIES \<Longrightarrow> attempt_once w b url s = (Inr d, s1) \<Longrightarrow>
   retry_loop w b url a le s = (Inr d, s1)"
  by (subst retry_loop.simps) simp

lemma retry_loop_stop:
  "a \<le> MAX_RETRIES \<Longrightarrow> attempt_once w b url s = (Inl e, s1) \<Longrightarrow>
   str_includes (message e) ''Authentication failed'' \<or> str_includes (message e) ''not found'' \<or>
   a = MAX_RETRIES \<Longrightarrow>
   retry_loop w b url a le s = (Inl (Some e), s1)"
  by (subst retry_loop.simps) auto

lemma retry_loop_continue:
  "a < MAX_RETRIES \<Longrightarrow> attempt_once w b url s = (Inl e, s1) \<Longrightarrow>
   \<not> str_includes (message e) ''Authentication failed'' \<Longrightarrow> \<not> str_includes (message e) ''not found'' \<Longrightarrow>
   retry_loop w b url a le s =
     retry_loop w b url (a + 1) (Some e) (s1\<lparr>events := events s1 @ [Sleep (a * 1000)]\<rparr>)"
  by (subst retry_loop.simps) simp

lemma retry_loop_frame:
  assumes "retry_loop w b url a le s = (r, s')" and "a \<le> MAX_RETRIES"
  shows "\<exists>k. 1 \<le> k \<and> k + a \<le> MAX_RETRIES + 1 \<and> requests s' = requests s @ replicate k url \<and>
         API_BASE_URL s' = API_BASE_URL s \<and> currentApiIndex s' = currentApiIndex s \<and> r \<noteq> Inl None"
  using assms
proof (induction w b url a le s arbitrary: r s' rule: retry_loop.induct)
  case (1 w baseUrl url attempt lastError s)
  obtain x s1 where x: "attempt_once w baseUrl url s = (x, s1)" by fastforce
  note fr = attempt_once_frame [OF x]
  show ?case
  proof (cases x)
    case (Inr d)
    with 1(2,3) x fr show ?thesis
      by (auto simp: retry_loop_success intro!: exI [of _ 1])
  next
    case (Inl e)
    show ?thesis
    proof (cases "str_includes (message e) ''Authentication failed'' \<or>
                  str_includes (message e) ''not found'' \<or> attempt = MAX_RETRIES")
      case True
      with 1(3) x Inl have "retry_loop w baseUrl url attempt lastError s = (Inl (Some e), s1)"
        by (intro retry_loop_stop) auto
      with 1(2,3) fr show ?thesis
        by (auto intro!: exI [of _ 1])
    next
      case False
      let ?s2 = "if attempt < MAX_RETRIES then s1\<lparr>events := events s1 @ [Sleep (attempt * 1000)]\<rparr> else s1"
      from False 1(3) have lt: "attempt + 1 \<le> MAX_RETRIES" by simp
      from 1(2) 1(3) x Inl False have rec: "retry_loop w baseUrl url (attempt + 1) (Some e) ?s2 = (r, s')"
        by (subst (asm) retry_loop.simps) simp
      from 1(1) [OF 1(3) x [symmetric] Inl _ rec lt] False
      obtain k where k: "1 \<le> k" "k + (attempt + 1) \<le> MAX_RETRIES + 1"
          "requests s' = requests ?s2 @ replicate k url"
          "API_BASE_URL s' = API_BASE_URL ?s2" "currentApiIndex s' = currentApiIndex ?s2" "r \<noteq> Inl None"
        by auto
      with fr show ?thesis
        by (intro exI [of _ "Suc k"]) (auto simp: replicate_append_same)
    qed
  qed
qed

lemma makeApiRequest_frame:
  assumes "makeApiRequest w b endpoint s = (r, s')"
  shows "\<exists>k. 1 \<le> k \<and> k \<le> MAX_RETRIES \<and> requests s' = requests s @ replicate k (template b @ endpoint) \<and>
         API_BASE_URL s' = API_BASE_URL s \<and> currentApiIndex s' = currentApiIndex s \<and> r \<noteq> Inl None"
proof -
  have "(1::nat) \<le> MAX_RETRIES" by (simp add: MAX_RETRIES_def)
  from retry_loop_frame [OF assms [unfolded makeApiRequest_def] this] show ?thesis
    by auto
qed

subsection \<open>The fallback loop\<close>

lemma indexOf_bounds: "x \<in> set xs \<Longrightarrow> 0 \<le> indexOf xs x \<and> indexOf xs x < int (length xs)"
  by (induction xs) (auto simp: Let_def)

lemma indexOf_nth: "x \<in> set xs \<Longrightarrow> array_get xs (indexOf xs x) = Some x"
proof (induction xs)
  case Nil
  then show ?case by simp
next
  case (Cons y ys)
  show ?case
  proof (cases "y = x")
    case True
    then show ?thesis by (simp add: array_get_def)
  next
    case False
    with Cons.prems have mem: "x \<in> set ys" by simp
    from indexOf_bounds [OF mem] Cons.IH [OF mem] False show ?thesis
      by (auto simp: array_get_def Let_def nat_add_distrib split: if_splits)
  qed
qed


subsection \<open>The user record after a 401\<close>

lemma deleted_on_401_refl: "deleted_on_401 w s s"
  by (simp add: deleted_on_401_def)

lemma deleted_on_401_trans:
  assumes "deleted_on_401 w s s1" and "deleted_on_401 w s1 s2"
  shows "deleted_on_401 w s s2"
proof -
  from assms(1) obtain n1 where n1: "requests s1 = requests s @ n1"
    and c1: "AsyncStorage s ''user'' = None \<or>
         (\<exists>n d. n < length n1 \<and> reply w (length (requests s) + n) (n1 ! n) = Json 401 d)
         \<Longrightarrow> AsyncStorage s1 ''user'' = None"
    unfolding deleted_on_401_def by blast
  from assms(2) obtain n2 where n2: "requests s2 = requests s1 @ n2"
    and c2: "AsyncStorage s1 ''user'' = None \<or>
         (\<exists>n d. n < length n2 \<and> reply w (length (requests s1) + n) (n2 ! n) = Json 401 d)
         \<Longrightarrow> AsyncStorage s2 ''user'' = None"
    unfolding deleted_on_401_def by blast
  have "AsyncStorage s2 ''user'' = None"
    if h: "AsyncStorage s ''user'' = None \<or>
         (\<exists>n d. n < length (n1 @ n2) \<and> reply w (length (requests s) + n) ((n1 @ n2) ! n) = Json 401 d)"
    using h
  proof
    assume "AsyncStorage s ''user'' = None"
    then show ?thesis using c1 c2 by blast
  next
    assume "\<exists>n d. n < length (n1 @ n2) \<and> reply w (length (requests s) + n) ((n1 @ n2) ! n) = Json 401 d"
    then obtain n d where n: "n < length (n1 @ n2)"
      and r: "reply w (length (requests s) + n) ((n1 @ n2) ! n) = Json 401 d"
      by blast
    show ?thesis
    proof (cases "n < length n1")
      case True
      with r have "reply w (length (requests s) + n) (n1 ! n) = Json 401 d"
        by (simp add: nth_append)
      with True c1 c2 show ?thesis by blast
    next
      case False
      with n r n1 have "n - length n1 < length n2"
        and "reply w (length (requests s1) + (n - length n1)) (n2 ! (n - length n1)) = Json 401 d"
        by (auto simp: nth_append)
      then show ?thesis using c2 by blast
    qed
  qed
  with n1 n2 show ?thesis
    unfolding deleted_on_401_def by (intro exI [of _ "n1 @ n2"]) auto
qed

lemma deleted_on_401_attempt:
  assumes "attempt_once w b url s = (r, s')"
  shows "deleted_on_401 w s s'"
proof -
  have "requests s' = requests s @ [url]"
    using attempt_once_frame [OF assms] by simp
  moreover have "AsyncStorage s' ''user'' = None"
    if "AsyncStorage s ''user'' = None \<or> (\<exists>d. reply w (length (requests s)) url = Json 401 d)"
    using that assms
    by (auto simp: attempt_once_reply split: reply.splits if_splits)
  ultimately show ?thesis
    unfolding deleted_on_401_def by (intro exI [of _ "[url]"]) auto
qed

lemma deleted_on_401_waits:
  "deleted_on_401 w s s' \<Longrightarrow> deleted_on_401 w s (s'\<lparr>events := events s' @ [Sleep ms]\<rparr>)"
  by (simp add: deleted_on_401_def)

lemma deleted_on_401_pointer:
  "deleted_on_401 w s s' \<Longrightarrow> deleted_on_401 w s (s'\<lparr>API_BASE_URL := u, currentApiIndex := i\<rparr>)"
  by (simp add: deleted_on_401_def)

lemma deleted_on_401_retry:
  assumes "retry_loop w b url a le s = (r, s')"
  shows "deleted_on_401 w s s'"
  using assms
proof (induction w b url a le s arbitrary: r s' rule: retry_loop.induct)
  case (1 w baseUrl url attempt lastError s)
  show ?case
  proof (cases "attempt \<le> MAX_RETRIES")
    case False
    with 1(2) have "s' = s" by (subst (asm) retry_loop.simps) simp
    then show ?thesis by (simp add: deleted_on_401_refl)
  next
    case le: True
    obtain x s1 where x: "attempt_once w baseUrl url s = (x, s1)" by fastforce
    note st = deleted_on_401_attempt [OF x]
    show ?thesis
    proof (cases x)
      case (Inr d)
      with 1(2) x le st show ?thesis by (simp add: retry_loop_success)
    next
      case (Inl e)
      show ?thesis
      proof (cases "str_includes (message e) ''Authentication failed'' \<or>
                    str_includes (message e) ''not found'' \<or> attempt = MAX_RETRIES")
        case True
        with le x Inl have "retry_loop w baseUrl url attempt lastError s = (Inl (Some e), s1)"
          by (intro retry_loop_stop) auto
        with 1(2) st show ?thesis by simp
      next
        case False
        let ?s2 = "if attempt < MAX_RETRIES then s1\<lparr>events := events s1 @ [Sleep (attempt * 1000)]\<rparr> else s1"
        from 1(2) le x Inl False
        have rec: "retry_loop w baseUrl url (attempt + 1) (Some e) ?s2 = (r, s')"
          by (subst (asm) retry_loop.simps) simp
        have "deleted_on_401 w s ?s2"
          using st by (simp add: deleted_on_401_waits)
        moreover have "deleted_on_401 w ?s2 s'"
          by (rule 1(1) [OF le x [symmetric] Inl False rec])
        ultimately show ?thesis by (rule deleted_on_401_trans)
      qed
    qed
  qed
qed

lemma deleted_on_401_fallback:
  assumes "fallback_loop w urls endpoint att s = (out, s')"
  shows "deleted_on_401 w s s'"
  using assms
proof (induction urls arbitrary: att s)
  case Nil
  then show ?case by (simp add: deleted_on_401_refl)
next
  case (Cons devUrl devUrls)
  show ?case
  proof (cases "Some devUrl = API_BASE_URL s")
    case True
    with Cons show ?thesis by simp
  next
    case False
    obtain r1 s1 where m: "makeApiRequest w (Some devUrl) endpoint s = (r1, s1)" by fastforce
    then have st: "deleted_on_401 w s s1"
      unfolding makeApiRequest_def by (rule deleted_on_401_retry)
    show ?thesis
    proof (cases r1)
      case (Inr res)
      with Cons.prems False m st show ?thesis
        by (auto simp: deleted_on_401_pointer)
    next
      case (Inl eo)
      show ?thesis
      proof (cases eo)
        case None
        with Inl Cons.prems False m st show ?thesis by auto
      next
        case (Some e)
        with Inl Cons.prems False m
        have "fallback_loop w devUrls endpoint (att @ [Some devUrl]) s1 = (out, s')" by simp
        from st Cons.IH [OF this] show ?thesis by (rule deleted_on_401_trans)
      qed
    qed
  qed
qed


subsection \<open>The pointer to the current host\<close>

lemma testMultipleIPs_from_bounds:
  "index_in_bounds s \<Longrightarrow> index_in_bounds (snd (testMultipleIPs_from w i s))"
proof (induction w i s rule: testMultipleIPs_from.induct)
  case (1 w i s)
  show ?case
  proof (cases "i < length DEVELOPMENT_API_URLS")
    case False
    with 1(3) show ?thesis by (subst testMultipleIPs_from.simps) simp
  next
    case True
    let ?url = "DEVELOPMENT_API_URLS ! i @ ''/debug/test''"
    let ?s1 = "s\<lparr>events := events s @ [Fetch ?url]\<rparr>"
    from 1(3) have b1: "index_in_bounds ?s1" by (simp add: index_in_bounds_def)
    show ?thesis
    proof (cases "withTimeout (fetch w (length (requests s)) ?url) 3000")
      case (Inl e)
      with True 1(1) [OF True refl refl Inl b1] show ?thesis
        by (subst testMultipleIPs_from.simps) (simp add: Let_def)
    next
      case (Inr r)
      show ?thesis
      proof (cases "ok r")
        case ok: True
        with True Inr show ?thesis
          by (subst testMultipleIPs_from.simps) (simp add: Let_def index_in_bounds_def)
      next
        case nok: False
        with True Inr 1(2) [OF True refl refl Inr nok b1] show ?thesis
          by (subst testMultipleIPs_from.simps) (simp add: Let_def)
      qed
    qed
  qed
qed

lemma promoted_here:
  assumes "Some devUrl \<noteq> API_BASE_URL s"
    and "makeApiRequest w (Some devUrl) endpoint s = (Inr res, s1)"
  shows "promoted w endpoint (devUrl # devUrls) s res
           (s1\<lparr>API_BASE_URL := Some devUrl, currentApiIndex := indexOf DEVELOPMENT_API_URLS devUrl\<rparr>)"
  unfolding promoted_def
  using assms by (intro exI [of _ devUrl] exI [of _ s] exI [of _ s1] exI [of _ "[]"]) simp

lemma promoted_later:
  assumes "promoted w endpoint devUrls s1 res s'"
    and "API_BASE_URL s1 = API_BASE_URL s" and "requests s1 = requests s @ xs"
  shows "promoted w endpoint (devUrl # devUrls) s res s'"
proof -
  from assms(1) obtain d t t' older where r: "d \<in> set devUrls"
      "Some d \<noteq> API_BASE_URL s1" "API_BASE_URL t = API_BASE_URL s1"
      "requests t = requests s1 @ older"
      "makeApiRequest w (Some d) endpoint t = (Inr res, t')"
      "s' = t'\<lparr>API_BASE_URL := Some d, currentApiIndex := indexOf DEVELOPMENT_API_URLS d\<rparr>"
    unfolding promoted_def by blast
  show ?thesis
    unfolding promoted_def
    using r assms(2,3)
    by (intro exI [of _ d] exI [of _ t] exI [of _ t'] exI [of _ "xs @ older"]) simp
qed

lemma fallback_loop_cases:
  assumes "fallback_loop w urls endpoint att s = (out, s')"
  shows "case out of
           Exhausted a \<Rightarrow> API_BASE_URL s' = API_BASE_URL s \<and> currentApiIndex s' = currentApiIndex s
         | Returned res \<Rightarrow> promoted w endpoint urls s res s'
         | Raised x \<Rightarrow> False"
  using assms
proof (induction urls arbitrary: att s)
  case Nil
  then show ?case by auto
next
  case (Cons devUrl devUrls)
  show ?case
  proof (cases "Some devUrl = API_BASE_URL s")
    case True
    with Cons.prems have "fallback_loop w devUrls endpoint att s = (out, s')" by simp
    from Cons.IH [OF this] show ?thesis
      by (cases out) (simp_all add: promoted_later [where xs = "[]"])
  next
    case False
    obtain r1 s1 where m: "makeApiRequest w (Some devUrl) endpoint s = (r1, s1)" by fastforce
    from makeApiRequest_frame [OF m] obtain k where
      k: "requests s1 = requests s @ replicate k (template (Some devUrl) @ endpoint)"
      and fr: "API_BASE_URL s1 = API_BASE_URL s" "currentApiIndex s1 = currentApiIndex s"
      and nn: "r1 \<noteq> Inl None"
      by blast
    show ?thesis
    proof (cases r1)
      case (Inr res)
      with Cons.prems False m have "out = Returned res"
        and "s' = s1\<lparr>API_BASE_URL := Some devUrl,
                       currentApiIndex := indexOf DEVELOPMENT_API_URLS devUrl\<rparr>"
        by auto
      with promoted_here [OF False m [unfolded Inr]] show ?thesis by simp
    next
      case (Inl eo)
      with nn obtain e where e: "r1 = Inl (Some e)" by (cases eo) auto
      with Cons.prems False m
      have rec: "fallback_loop w devUrls endpoint (att @ [Some devUrl]) s1 = (out, s')" by simp
      from Cons.IH [OF rec] fr show ?thesis
        by (cases out) (simp_all add: promoted_later [OF _ fr(1) k])
    qed
  qed
qed

lemma apiCall_cases:
  assumes "apiCall w endpoint s = (r, s')"
  shows "(\<exists>res. r = Inr res \<and> makeApiRequest w (API_BASE_URL s) endpoint s = (Inr res, s')) \<or>
         (\<exists>e s1 out. makeApiRequest w (API_BASE_URL s) endpoint s = (Inl (Some e), s1) \<and>
            fallback_loop w DEVELOPMENT_API_URLS endpoint [API_BASE_URL s] s1 = (out, s') \<and>
            API_BASE_URL s1 = API_BASE_URL s \<and> currentApiIndex s1 = currentApiIndex s \<and>
            (case out of
               Returned res \<Rightarrow> r = Inr res
             | Raised x \<Rightarrow> False
             | Exhausted attemptedUrls \<Rightarrow>
                 r = Inl (Error (''API call failed: '' @ message e @ ''. Tried '' @
                                 decimal (length attemptedUrls) @ '' endpoints.''))))"
proof -
  obtain r1 s1 where m: "makeApiRequest w (API_BASE_URL s) endpoint s = (r1, s1)" by fastforce
  from makeApiRequest_frame [OF m]
  have fr: "API_BASE_URL s1 = API_BASE_URL s" "currentApiIndex s1 = currentApiIndex s"
    and nn: "r1 \<noteq> Inl None"
    by blast+
  show ?thesis
  proof (cases r1)
    case (Inr res)
    with assms m show ?thesis by (simp add: apiCall_def)
  next
    case (Inl eo)
    with nn obtain e where e: "r1 = Inl (Some e)" by (cases eo) auto
    obtain out s2 where f: "fallback_loop w DEVELOPMENT_API_URLS endpoint [API_BASE_URL s1] s1 = (out, s2)"
      by fastforce
    have "s' = s2 \<and> (case out of
               Returned res \<Rightarrow> r = Inr res
             | Raised x \<Rightarrow> False
             | Exhausted attemptedUrls \<Rightarrow>
                 r = Inl (Error (''API call failed: '' @ message e @ ''. Tried '' @
                                 decimal (length attemptedUrls) @ '' endpoints.'')))"
    proof (cases out)
      case (Returned res)
      with assms m e f show ?thesis by (simp add: apiCall_def)
    next
      case (Exhausted a)
      with assms m e f show ?thesis by (simp add: apiCall_def)
    next
      case (Raised x)
      with fallback_loop_cases [OF f] show ?thesis by simp
    qed
    with m e f fr show ?thesis by simp
  qed
qed

lemma apiCall_bounds:
  assumes "index_in_bounds s"
  shows "index_in_bounds (snd (apiCall w endpoint s))"
proof -
  obtain r s' where a: "apiCall w endpoint s = (r, s')" by fastforce
  from apiCall_cases [OF a] have "index_in_bounds s'"
  proof
    assume "\<exists>res. r = Inr res \<and> makeApiRequest w (API_BASE_URL s) endpoint s = (Inr res, s')"
    then obtain res where "makeApiRequest w (API_BASE_URL s) endpoint s = (Inr res, s')" by blast
    from makeApiRequest_frame [OF this] assms show ?thesis
      by (auto simp: index_in_bounds_def)
  next
    assume "\<exists>e s1 out. makeApiRequest w (API_BASE_URL s) endpoint s = (Inl (Some e), s1) \<and>
            fallback_loop w DEVELOPMENT_API_URLS endpoint [API_BASE_URL s] s1 = (out, s') \<and>
            API_BASE_URL s1 = API_BASE_URL s \<and> currentApiIndex s1 = currentApiIndex s \<and>
            (case out of
               Returned res \<Rightarrow> r = Inr res
             | Raised x \<Rightarrow> False
             | Exhausted attemptedUrls \<Rightarrow>
                 r = Inl (Error (''API call failed: '' @ message e @ ''. Tried '' @
                                 decimal (length attemptedUrls) @ '' endpoints.'')))"
    then obtain s1 out where f: "fallback_loop w DEVELOPMENT_API_URLS endpoint [API_BASE_URL s] s1 = (out, s')"
      and fr: "currentApiIndex s1 = currentApiIndex s"
      by blast
    show ?thesis
    proof (cases out)
      case (Exhausted a)
      with fallback_loop_cases [OF f] fr assms show ?thesis by (simp add: index_in_bounds_def)
    next
      case (Returned res)
      with fallback_loop_cases [OF f] obtain devUrl where "devUrl \<in> set DEVELOPMENT_API_URLS"
        and "currentApiIndex s' = indexOf DEVELOPMENT_API_URLS devUrl"
        by (auto simp: promoted_def)
      with indexOf_bounds [of devUrl DEVELOPMENT_API_URLS] show ?thesis
        by (simp add: index_in_bounds_def)
    next
      case (Raised x)
      with fallback_loop_cases [OF f] show ?thesis by simp
    qed
  qed
  with a show ?thesis by simp
qed

lemma apiCall_first_request:
  "\<exists>more. requests (snd (apiCall w endpoint s)) =
           requests s @ (template (API_BASE_URL s) @ endpoint) # more"
proof -
  obtain r s' where a: "apiCall w endpoint s = (r, s')" by fastforce
  obtain r1 s1 where m: "makeApiRequest w (API_BASE_URL s) endpoint s = (r1, s1)" by fastforce
  from makeApiRequest_frame [OF m] obtain k where k: "1 \<le> k"
    "requests s1 = requests s @ replicate k (template (API_BASE_URL s) @ endpoint)"
    by blast
  then obtain j where "k = Suc j" by (cases k) auto
  with k have first: "requests s1 = requests s @ (template (API_BASE_URL s) @ endpoint) #
      replicate j (template (API_BASE_URL s) @ endpoint)"
    by simp
  from apiCall_cases [OF a] have "\<exists>xs. requests s' = requests s1 @ xs"
  proof
    assume "\<exists>res. r = Inr res \<and> makeApiRequest w (API_BASE_URL s) endpoint s = (Inr res, s')"
    with m show ?thesis by auto
  next
    assume "\<exists>e s1 out. makeApiRequest w (API_BASE_URL s) endpoint s = (Inl (Some e), s1) \<and>
            fallback_loop w DEVELOPMENT_API_URLS endpoint [API_BASE_URL s] s1 = (out, s') \<and>
            API_BASE_URL s1 = API_BASE_URL s \<and> currentApiIndex s1 = currentApiIndex s \<and>
            (case out of
               Returned res \<Rightarrow> r = Inr res
             | Raised x \<Rightarrow> False
             | Exhausted attemptedUrls \<Rightarrow>
                 r = Inl (Error (''API call failed: '' @ message e @ ''. Tried '' @
                                 decimal (length attemptedUrls) @ '' endpoints.'')))"
    with m obtain out where "fallback_loop w DEVELOPMENT_API_URLS endpoint [API_BASE_URL s] s1 = (out, s')"
      by auto
    from deleted_on_401_fallback [OF this] show ?thesis
      by (auto simp: deleted_on_401_def)
  qed
  with first a show ?thesis by auto
qed



subsection \<open>Failures that are retried\<close>

lemma trim_braces: "trim ''{}'' = ''{}''"
  by code_simp

lemma blank_body_attempt:
  assumes "withTimeout (fetch w (length (requests s)) url) TIMEOUT_MS = Inr resp"
    and "\<not> str_includes (case content_type resp of None \<Rightarrow> [] | Some c \<Rightarrow> c) ''text/html''"
    and "body resp = Inr responseText" and "trim responseText = []" and "ok resp"
  shows "attempt_once w b url s = (Inr (JObject []), s\<lparr>events := events s @ [Fetch url]\<rparr>)"
  using assms by (simp add: attempt_once_def read_responseData_def)

lemma configured_hosts_html_message:
  "\<forall>host \<in> set DEVELOPMENT_API_URLS.
     \<not> str_includes (html_page_message host) ''Authentication failed'' \<and>
     \<not> str_includes (html_page_message host) ''not found''"
  by code_simp

lemma str_includes_nonempty: "str_includes m sub \<Longrightarrow> sub \<noteq> [] \<Longrightarrow> m \<noteq> []"
  by (cases m) auto

subsection \<open>The health check, case by case\<close>

lemma checkServerHealth_cases:
  fixes w s
  defines "url \<equiv> template (API_BASE_URL s) @ ''/debug/test''"
  defines "received \<equiv> withTimeout (fetch w (length (requests s)) url) 8000"
  shows "received = Inr resp \<Longrightarrow> ok resp \<Longrightarrow> response_json w resp = Inr payload \<Longrightarrow>
           fst (checkServerHealth w s) =
             \<lparr>healthy = True, health_status = Some (status resp), health_data = Some payload,
              health_error = None\<rparr>"
    and "received = Inr resp \<Longrightarrow> ok resp \<Longrightarrow> response_json w resp = Inl e \<Longrightarrow>
           fst (checkServerHealth w s) =
             \<lparr>healthy = False, health_status = None, health_data = None,
              health_error = Some (message e)\<rparr>"
    and "received = Inr resp \<Longrightarrow> \<not> ok resp \<Longrightarrow>
           fst (checkServerHealth w s) =
             \<lparr>healthy = False, health_status = Some (status resp), health_data = None,
              health_error = None\<rparr>"
    and "received = Inl e \<Longrightarrow>
           fst (checkServerHealth w s) =
             \<lparr>healthy = False, health_status = None, health_data = None,
              health_error = Some (message e)\<rparr>"
    and "snd (checkServerHealth w s) = s\<lparr>events := events s @ [Fetch url]\<rparr>"
  by (simp_all add: checkServerHealth_def Let_def url_def received_def split: sum.splits)

subsection \<open>The requests of the fallback\<close>





subsection \<open>The retry loop, one iteration at a time\<close>

text \<open>
  The error of an attempt is a function of the reply (\<open>failure\<close>), and so is what the loop
  does next: it ends at a non-retryable error and at the last attempt, and otherwise logs the
  wait and runs the next iteration, which starts with a request.
\<close>

lemma authentication_failed_non_retryable: "non_retryable (Error ''Authentication failed'')"
  by (simp add: non_retryable_def)

lemma server_error_retryable: "\<not> non_retryable (Error ''Server internal error'')"
  by (simp add: non_retryable_def)

lemma attempt_once_failure:
  assumes "failure w b (reply w (length (requests s)) url) = Some e"
  shows "attempt_once w b url s =
           (Inl e,
            if reply w (length (requests s)) url \<in> range (Json 401)
            then s\<lparr>events := events s @ [Fetch url], AsyncStorage := (AsyncStorage s)(''user'' := None)\<rparr>
            else s\<lparr>events := events s @ [Fetch url]\<rparr>)"
  using assms
  by (auto simp: attempt_once_reply failure_def split: reply.splits if_splits)

lemma attempt_once_retryable:
  assumes "fails_retryably w b (length (requests s)) url"
  shows "\<exists>e. failure w b (reply w (length (requests s)) url) = Some e \<and> \<not> non_retryable e \<and>
             attempt_once w b url s = (Inl e, s\<lparr>events := events s @ [Fetch url]\<rparr>)"
proof -
  from assms obtain e where e: "failure w b (reply w (length (requests s)) url) = Some e"
    and r: "\<not> non_retryable e"
    by (auto simp: fails_retryably_def split: option.splits)
  have "reply w (length (requests s)) url \<notin> range (Json 401)"
  proof
    assume "reply w (length (requests s)) url \<in> range (Json 401)"
    with e have "e = Error ''Authentication failed''" by (auto simp: failure_def)
    with r authentication_failed_non_retryable show False by simp
  qed
  with attempt_once_failure [OF e] e r show ?thesis by simp
qed

lemma retry_loop_step:
  assumes "a \<le> MAX_RETRIES" and "attempt_once w b url s = (Inl e, s1)"
  shows "retry_loop w b url a le s =
           (if non_retryable e \<or> a = MAX_RETRIES then (Inl (Some e), s1)
            else retry_loop w b url (a + 1) (Some e) (s1\<lparr>events := events s1 @ [Sleep (a * 1000)]\<rparr>))"
proof (cases "non_retryable e \<or> a = MAX_RETRIES")
  case True
  then have "str_includes (message e) ''Authentication failed'' \<or> str_includes (message e) ''not found'' \<or>
      a = MAX_RETRIES"
    by (auto simp: non_retryable_def)
  from retry_loop_stop [OF assms this] True show ?thesis by simp
next
  case False
  with assms(1) have "a < MAX_RETRIES"
    and "\<not> str_includes (message e) ''Authentication failed''"
    and "\<not> str_includes (message e) ''not found''"
    by (auto simp: non_retryable_def)
  from retry_loop_continue [OF this(1) assms(2) this(2,3)] False show ?thesis by simp
qed

lemma retry_loop_by_message:
  assumes "a \<le> MAX_RETRIES" and "attempt_once w b url s = (Inl e, s1)"
  shows "retry_loop w b url a le s =
           (if str_includes (message e) ''Authentication failed'' \<or> str_includes (message e) ''not found'' \<or>
               a = MAX_RETRIES
            then (Inl (Some e), s1)
            else retry_loop w b url (a + 1) (Some e) (s1\<lparr>events := events s1 @ [Sleep (a * 1000)]\<rparr>))"
  using retry_loop_step [OF assms, of le] by (simp add: non_retryable_def)

lemma retry_loop_failure_step:
  assumes "a \<le> MAX_RETRIES" and "failure w b (reply w (length (requests s)) url) = Some e"
    and "reply w (length (requests s)) url \<notin> range (Json 401)"
  shows "retry_loop w b url a le s =
           (if non_retryable e \<or> a = MAX_RETRIES then (Inl (Some e), s\<lparr>events := events s @ [Fetch url]\<rparr>)
            else retry_loop w b url (a + 1) (Some e)
                   (s\<lparr>events := events s @ [Fetch url, Sleep (a * 1000)]\<rparr>))"
proof -
  from attempt_once_failure [OF assms(2)] assms(3)
  have "attempt_once w b url s = (Inl e, s\<lparr>events := events s @ [Fetch url]\<rparr>)" by simp
  from retry_loop_step [OF assms(1) this, of le] show ?thesis by simp
qed

lemma retry_loop_first_event:
  assumes "a \<le> MAX_RETRIES"
  shows "\<exists>more. events (snd (retry_loop w b url a le s)) = events s @ Fetch url # more"
  using assms
proof (induction w b url a le s rule: retry_loop.induct)
  case (1 w baseUrl url attempt lastError s)
  obtain x s1 where x: "attempt_once w baseUrl url s = (x, s1)" by fastforce
  from attempt_once_frame [OF x] have fr: "events s1 = events s @ [Fetch url]" by simp
  show ?case
  proof (cases x)
    case (Inr d)
    with x 1(2) have "retry_loop w baseUrl url attempt lastError s = (Inr d, s1)"
      by (simp add: retry_loop_success)
    with fr show ?thesis by simp
  next
    case (Inl e)
    with x have once: "attempt_once w baseUrl url s = (Inl e, s1)" by simp
    note step = retry_loop_step [OF 1(2) once, of lastError]
    show ?thesis
    proof (cases "non_retryable e \<or> attempt = MAX_RETRIES")
      case True
      with step fr show ?thesis by simp
    next
      case False
      let ?s2 = "if attempt < MAX_RETRIES then s1\<lparr>events := events s1 @ [Sleep (attempt * 1000)]\<rparr> else s1"
      from False 1(2) have lt: "attempt + 1 \<le> MAX_RETRIES" "attempt < MAX_RETRIES" by simp_all
      from False have m: "\<not> (str_includes (message e) ''Authentication failed'' \<or>
          str_includes (message e) ''not found'' \<or> attempt = MAX_RETRIES)"
        by (simp add: non_retryable_def)
      from 1(1) [OF 1(2) x [symmetric] Inl m lt(1)]
      obtain more where "events (snd (retry_loop w baseUrl url (attempt + 1) (Some e) ?s2)) =
          events ?s2 @ Fetch url # more"
        by blast
      with lt(2) fr have "events (snd (retry_loop w baseUrl url (attempt + 1) (Some e)
            (s1\<lparr>events := events s1 @ [Sleep (attempt * 1000)]\<rparr>))) =
          events s @ Fetch url # Sleep (attempt * 1000) # Fetch url # more"
        by simp
      with step False show ?thesis by simp
    qed
  qed
qed

lemma retry_loop_next_request:
  assumes "a < MAX_RETRIES" and "attempt_once w b url s = (Inl e, s1)"
    and "\<not> (str_includes (message e) ''Authentication failed'' \<or> str_includes (message e) ''not found'')"
  shows "\<exists>more. events (snd (retry_loop w b url a le s)) = events s1 @ Sleep (a * 1000) # Fetch url # more"
proof -
  from assms(1) have le: "a \<le> MAX_RETRIES" "a + 1 \<le> MAX_RETRIES" "a \<noteq> MAX_RETRIES" by simp_all
  from assms(3) have n: "\<not> non_retryable e" by (simp add: non_retryable_def)
  from retry_loop_step [OF le(1) assms(2), of le] n le(3)
  have step: "retry_loop w b url a le s =
      retry_loop w b url (a + 1) (Some e) (s1\<lparr>events := events s1 @ [Sleep (a * 1000)]\<rparr>)"
    by simp
  from retry_loop_first_event [OF le(2), of w b url "Some e" "s1\<lparr>events := events s1 @ [Sleep (a * 1000)]\<rparr>"]
  show ?thesis unfolding step by simp
qed

lemma makeApiRequest_three_attempts:
  assumes "\<forall>n. fails_retryably w b n (template b @ endpoint)"
  shows "makeApiRequest w b endpoint s =
           (Inl (failure w b (reply w (length (requests s) + 2) (template b @ endpoint))),
            s\<lparr>events := events s @ three_attempts (template b @ endpoint)\<rparr>)"
proof -
  let ?url = "template b @ endpoint"
  define t1 where "t1 = s\<lparr>events := events s @ [Fetch ?url]\<rparr>"
  define s1 where "s1 = t1\<lparr>events := events t1 @ [Sleep (1 * 1000)]\<rparr>"
  define t2 where "t2 = s1\<lparr>events := events s1 @ [Fetch ?url]\<rparr>"
  define s2 where "s2 = t2\<lparr>events := events t2 @ [Sleep (2 * 1000)]\<rparr>"
  define t3 where "t3 = s2\<lparr>events := events s2 @ [Fetch ?url]\<rparr>"
  from assms attempt_once_retryable [of w b s ?url] obtain e1 where
    e1: "\<not> non_retryable e1" "attempt_once w b ?url s = (Inl e1, t1)"
    unfolding t1_def by blast
  from assms attempt_once_retryable [of w b s1 ?url] obtain e2 where
    e2: "\<not> non_retryable e2" "attempt_once w b ?url s1 = (Inl e2, t2)"
    unfolding t2_def by blast
  from assms attempt_once_retryable [of w b s2 ?url] obtain e3 where
    e3: "failure w b (reply w (length (requests s2)) ?url) = Some e3"
      "attempt_once w b ?url s2 = (Inl e3, t3)"
    unfolding t3_def by blast
  have n: "length (requests s2) = length (requests s) + 2"
    by (simp add: s2_def t2_def s1_def t1_def)
  have "retry_loop w b ?url (Suc 0) None s = retry_loop w b ?url (Suc (Suc 0)) (Some e1) s1"
    using retry_loop_step [OF _ e1(2), of "Suc 0" None] e1(1) by (simp add: MAX_RETRIES_def s1_def)
  also have "\<dots> = retry_loop w b ?url (Suc (Suc (Suc 0))) (Some e2) s2"
    using retry_loop_step [OF _ e2(2), of "Suc (Suc 0)" "Some e1"] e2(1)
    by (simp add: MAX_RETRIES_def s2_def)
  also have "\<dots> = (Inl (Some e3), t3)"
    using retry_loop_step [OF _ e3(2), of "Suc (Suc (Suc 0))" "Some e2"]
    by (simp add: MAX_RETRIES_def numeral_3_eq_3)
  finally show ?thesis
    using e3(1) n
    by (simp add: makeApiRequest_def t3_def s2_def t2_def s1_def t1_def three_attempts_def)
qed

subsection \<open>Replies that fail on every attempt\<close>

lemma status_500_fails_retryably:
  assumes "received_status w n url = Some 500"
    and "\<forall>pe. reply w n url = Unreadable pe \<longrightarrow>
           \<not> non_retryable (Error (''Invalid JSON response: '' @ message pe))"
    and "reply w n url = HtmlPage \<longrightarrow> \<not> non_retryable (Error (html_page_message (template b)))"
  shows "fails_retryably w b n url"
proof (cases "reply w n url")
  case (NoResponse e)
  with assms(1) show ?thesis
    by (auto simp: received_status_def reply_def split: sum.splits if_splits)
next
  case HtmlPage
  with assms(3) show ?thesis by (simp add: fails_retryably_def failure_def)
next
  case (Unreadable pe)
  with assms(2) show ?thesis by (simp add: fails_retryably_def failure_def)
next
  case (Json st d)
  with assms(1) have "st = 500"
    by (auto simp: received_status_def reply_def split: sum.splits if_splits)
  with Json server_error_retryable show ?thesis by (simp add: fails_retryably_def failure_def)
qed

lemma makeApiRequest_status_500:
  assumes "\<forall>n. received_status w n (template b @ endpoint) = Some 500 \<and>
               (\<forall>pe. reply w n (template b @ endpoint) = Unreadable pe \<longrightarrow>
                  \<not> non_retryable (Error (''Invalid JSON response: '' @ message pe))) \<and>
               (reply w n (template b @ endpoint) = HtmlPage \<longrightarrow>
                  \<not> non_retryable (Error (html_page_message (template b))))"
  shows "makeApiRequest w b endpoint s =
           (Inl (failure w b (reply w (length (requests s) + 2) (template b @ endpoint))),
            s\<lparr>events := events s @
               [Fetch (template b @ endpoint), Sleep 1000, Fetch (template b @ endpoint), Sleep 2000,
                Fetch (template b @ endpoint)]\<rparr>)"
proof -
  from assms have "\<forall>n. fails_retryably w b n (template b @ endpoint)"
    using status_500_fails_retryably by blast
  from makeApiRequest_three_attempts [OF this] show ?thesis
    by (simp add: three_attempts_def)
qed

lemma makeApiRequest_json_500:
  assumes "\<forall>n. \<exists>d. reply w n (template b @ endpoint) = Json 500 d"
  shows "makeApiRequest w b endpoint s =
           (Inl (Some (Error ''Server internal error'')),
            s\<lparr>events := events s @
               [Fetch (template b @ endpoint), Sleep 1000, Fetch (template b @ endpoint), Sleep 2000,
                Fetch (template b @ endpoint)]\<rparr>)"
proof -
  have f: "failure w b (reply w n (template b @ endpoint)) = Some (Error ''Server internal error'')" for n
  proof -
    from assms obtain d where "reply w n (template b @ endpoint) = Json 500 d" by blast
    then show ?thesis by (simp add: failure_def)
  qed
  then have "\<forall>n. fails_retryably w b n (template b @ endpoint)"
    using server_error_retryable by (simp add: fails_retryably_def)
  from makeApiRequest_three_attempts [OF this] f show ?thesis
    by (simp add: three_attempts_def)
qed

lemma server_error_step:
  assumes "a \<le> MAX_RETRIES" and "reply w (length (requests s)) url = Json 500 d"
  shows "retry_loop w b url a le s =
           (if a = MAX_RETRIES
            then (Inl (Some (Error ''Server internal error'')), s\<lparr>events := events s @ [Fetch url]\<rparr>)
            else retry_loop w b url (a + 1) (Some (Error ''Server internal error''))
                   (s\<lparr>events := events s @ [Fetch url, Sleep (a * 1000)]\<rparr>))"
proof -
  from assms(2) have f: "failure w b (reply w (length (requests s)) url) = Some (Error ''Server internal error'')"
    by (simp add: failure_def)
  from assms(2) have n: "reply w (length (requests s)) url \<notin> range (Json 401)"
    by auto
  from retry_loop_failure_step [OF assms(1) f n, of le] server_error_retryable
  show ?thesis by simp
qed

lemma server_error_next_request:
  assumes "a < MAX_RETRIES" and "reply w (length (requests s)) url = Json 500 d"
  shows "\<exists>more. events (snd (retry_loop w b url a le s)) =
           events s @ Fetch url # Sleep (a * 1000) # Fetch url # more"
proof -
  from assms(1) have le: "a \<le> MAX_RETRIES" "a + 1 \<le> MAX_RETRIES" "a \<noteq> MAX_RETRIES" by simp_all
  from server_error_step [OF le(1) assms(2), of b le] le(3)
  have step: "retry_loop w b url a le s =
      retry_loop w b url (a + 1) (Some (Error ''Server internal error''))
        (s\<lparr>events := events s @ [Fetch url, Sleep (a * 1000)]\<rparr>)"
    by simp
  from retry_loop_first_event [OF le(2), of w b url "Some (Error ''Server internal error'')"
      "s\<lparr>events := events s @ [Fetch url, Sleep (a * 1000)]\<rparr>"]
  show ?thesis unfolding step by simp
qed

lemma not_found_message_stops_here:
  assumes "a \<le> MAX_RETRIES" and "reply w (length (requests s)) url = Json st d"
    and "\<not> (200 \<le> st \<and> st \<le> 299)" and "st \<noteq> 500"
    and "member d ''message'' = Some (JString m)" and "str_includes m ''not found''"
  shows "retry_loop w b url a le s =
           (Inl (Some (if st = 401 then Error ''Authentication failed''
                       else if st = 404 then Error ''API endpoint not found'' else Error m)),
            if st = 401
            then s\<lparr>events := events s @ [Fetch url], AsyncStorage := (AsyncStorage s)(''user'' := None)\<rparr>
            else s\<lparr>events := events s @ [Fetch url]\<rparr>)"
proof -
  from assms(6) have "m \<noteq> []" by (rule str_includes_nonempty) simp
  with assms(5) have em: "new_Error w (errorMessage d st) = Error m"
    by (simp add: errorMessage_def js_or_def new_Error_def)
  let ?e = "if st = 401 then Error ''Authentication failed''
            else if st = 404 then Error ''API endpoint not found'' else Error m"
  let ?s1 = "if st = 401
            then s\<lparr>events := events s @ [Fetch url], AsyncStorage := (AsyncStorage s)(''user'' := None)\<rparr>
            else s\<lparr>events := events s @ [Fetch url]\<rparr>"
  from assms(2,3,4) em have once: "attempt_once w b url s = (Inl ?e, ?s1)"
    by (cases "st = 401"; cases "st = 404") (simp_all add: attempt_once_reply)
  have stop: "str_includes (message ?e) ''Authentication failed'' \<or> str_includes (message ?e) ''not found'' \<or>
      a = MAX_RETRIES"
    using assms(6) by simp
  from retry_loop_stop [OF assms(1) once stop] show ?thesis .
qed

lemma blank_body_reply:
  assumes "withTimeout (fetch w n url) TIMEOUT_MS = Inr resp"
    and "\<not> str_includes (case content_type resp of None \<Rightarrow> [] | Some c \<Rightarrow> c) ''text/html''"
    and "body resp = Inr responseText" and "trim responseText = []"
  shows "reply w n url = Json (status resp) (JObject [])"
  using assms by (simp add: reply_def read_responseData_def)

lemma unreadable_step:
  assumes "a \<le> MAX_RETRIES" and "reply w (length (requests s)) url = Unreadable pe"
  shows "retry_loop w b url a le s =
           (if non_retryable (Error (''Invalid JSON response: '' @ message pe)) \<or> a = MAX_RETRIES
            then (Inl (Some (Error (''Invalid JSON response: '' @ message pe))),
                  s\<lparr>events := events s @ [Fetch url]\<rparr>)
            else retry_loop w b url (a + 1) (Some (Error (''Invalid JSON response: '' @ message pe)))
                   (s\<lparr>events := events s @ [Fetch url, Sleep (a * 1000)]\<rparr>))"
proof -
  from assms(2) have f: "failure w b (reply w (length (requests s)) url) =
      Some (Error (''Invalid JSON response: '' @ message pe))"
    by (simp add: failure_def)
  from assms(2) have n: "reply w (length (requests s)) url \<notin> range (Json 401)"
    by auto
  from retry_loop_failure_step [OF assms(1) f n] show ?thesis .
qed

lemma unreadable_host:
  assumes "\<forall>n. \<exists>pe. reply w n (template b @ endpoint) = Unreadable pe \<and>
             \<not> non_retryable (Error (''Invalid JSON response: '' @ message pe))"
  shows "\<exists>pe. reply w (length (requests s) + 2) (template b @ endpoint) = Unreadable pe \<and>
           makeApiRequest w b endpoint s =
             (Inl (Some (Error (''Invalid JSON response: '' @ message pe))),
              s\<lparr>events := events s @
                 [Fetch (template b @ endpoint), Sleep 1000, Fetch (template b @ endpoint), Sleep 2000,
                  Fetch (template b @ endpoint)]\<rparr>)"
proof -
  have "fails_retryably w b n (template b @ endpoint)" for n
  proof -
    from assms obtain pe where "reply w n (template b @ endpoint) = Unreadable pe"
      and "\<not> non_retryable (Error (''Invalid JSON response: '' @ message pe))"
      by blast
    then show ?thesis by (simp add: fails_retryably_def failure_def)
  qed
  then have "\<forall>n. fails_retryably w b n (template b @ endpoint)" by blast
  note m = makeApiRequest_three_attempts [OF this, of s]
  from assms obtain pe where "reply w (length (requests s) + 2) (template b @ endpoint) = Unreadable pe"
    by blast
  with m show ?thesis by (simp add: failure_def three_attempts_def)
qed

lemma trim_prose: "trim ''Bad Gateway'' = ''Bad Gateway''"
  by code_simp

lemma configured_host_html_retryable:
  "host \<in> set DEVELOPMENT_API_URLS \<Longrightarrow> \<not> non_retryable (Error (html_page_message host))"
  using configured_hosts_html_message by (auto simp: non_retryable_def)

lemma html_step:
  assumes "a \<le> MAX_RETRIES" and "host \<in> set DEVELOPMENT_API_URLS"
    and "reply w (length (requests s)) url = HtmlPage"
  shows "retry_loop w (Some host) url a le s =
           (if a = MAX_RETRIES
            then (Inl (Some (Error (html_page_message host))), s\<lparr>events := events s @ [Fetch url]\<rparr>)
            else retry_loop w (Some host) url (a + 1) (Some (Error (html_page_message host)))
                   (s\<lparr>events := events s @ [Fetch url, Sleep (a * 1000)]\<rparr>))"
proof -
  from assms(3) have f: "failure w (Some host) (reply w (length (requests s)) url) =
      Some (Error (html_page_message host))"
    by (simp add: failure_def template_def)
  from assms(3) have n: "reply w (length (requests s)) url \<notin> range (Json 401)"
    by auto
  from retry_loop_failure_step [OF assms(1) f n, of le] configured_host_html_retryable [OF assms(2)]
  show ?thesis by simp
qed

lemma html_host:
  assumes "host \<in> set DEVELOPMENT_API_URLS" and "\<forall>n. reply w n (host @ endpoint) = HtmlPage"
  shows "makeApiRequest w (Some host) endpoint s =
           (Inl (Some (Error (html_page_message host))),
            s\<lparr>events := events s @
               [Fetch (host @ endpoint), Sleep 1000, Fetch (host @ endpoint), Sleep 2000,
                Fetch (host @ endpoint)]\<rparr>)"
proof -
  have t: "template (Some host) = host" by (simp add: template_def)
  have f: "failure w (Some host) (reply w n (host @ endpoint)) = Some (Error (html_page_message host))" for n
    using assms(2) by (simp add: failure_def t)
  then have "\<forall>n. fails_retryably w (Some host) n (template (Some host) @ endpoint)"
    using configured_host_html_retryable [OF assms(1)] by (simp add: fails_retryably_def t)
  from makeApiRequest_three_attempts [OF this, of s] f show ?thesis
    by (simp add: three_attempts_def t)
qed

subsection \<open>The fallback as a search for the first success\<close>





section \<open>The claims\<close>

subsection \<open>Retries against a host that answers 500\<close>

text \<open>
  C6, as stated, fails: the host answers every request with the status 500 and the plain
  text \<^verbatim>\<open>not found\<close>. The body does not parse, the message of the parser (V8's wording)
  quotes the text, so the error of the attempt contains \<^verbatim>\<open>not found\<close> and the loop ends
  after the first request, without a wait.
\<close>

theorem server_error_single_attempt_counterexample:
  "received_status all_500_plain_not_found 0 ''http://localhost:3000/api/listing/get'' = Some 500 \<and>
   received_status all_500_plain_not_found 1 ''http://localhost:3000/api/listing/get'' = Some 500 \<and>
   received_status all_500_plain_not_found 2 ''http://localhost:3000/api/listing/get'' = Some 500 \<and>
   observe (makeApiRequest all_500_plain_not_found (Some ''http://localhost:3000/api'') ''/listing/get''
              (initial_state Map.empty)) =
     (Inl (Some (Error (''Invalid JSON response: '' @ v8_not_found_message))),
      Some ''http://192.168.100.46:3000/api'', 0,
      [Fetch ''http://localhost:3000/api/listing/get''], None)"
  by code_simp

text \<open>
  C6, amended. Against a host that answers every attempt with a 500, the retry
  sub-procedure makes exactly three requests, waits 1000 ms after the first and 2000 ms
  after the second, and then gives the host up with the error of the third attempt,
  provided the message of no attempt's error contains \<^verbatim>\<open>Authentication failed\<close> or
  \<^verbatim>\<open>not found\<close>. The proviso concerns only a body that cannot be read or parsed and an
  HTML page: it holds whenever every 500 is read as JSON (the error is then
  \<^verbatim>\<open>Server internal error\<close>), and for the HTML page of every configured host.
\<close>

theorem makeApiRequest_500_three_attempts:
  "((\<forall>n. received_status w n (template baseUrl @ endpoint) = Some 500 \<and>
         (\<forall>pe. reply w n (template baseUrl @ endpoint) = Unreadable pe \<longrightarrow>
            \<not> non_retryable (Error (''Invalid JSON response: '' @ message pe))) \<and>
         (reply w n (template baseUrl @ endpoint) = HtmlPage \<longrightarrow>
            \<not> non_retryable (Error (html_page_message (template baseUrl))))) \<longrightarrow>
      makeApiRequest w baseUrl endpoint s =
        (Inl (failure w baseUrl (reply w (length (requests s) + 2) (template baseUrl @ endpoint))),
         s\<lparr>events := events s @
            [Fetch (template baseUrl @ endpoint), Sleep 1000,
             Fetch (template baseUrl @ endpoint), Sleep 2000,
             Fetch (template baseUrl @ endpoint)]\<rparr>)) \<and>
   ((\<forall>n. \<exists>d. reply w n (template baseUrl @ endpoint) = Json 500 d) \<longrightarrow>
      makeApiRequest w baseUrl endpoint s =
        (Inl (Some (Error ''Server internal error'')),
         s\<lparr>events := events s @
            [Fetch (template baseUrl @ endpoint), Sleep 1000,
             Fetch (template baseUrl @ endpoint), Sleep 2000,
             Fetch (template baseUrl @ endpoint)]\<rparr>)) \<and>
   (host \<in> set DEVELOPMENT_API_URLS \<longrightarrow> \<not> non_retryable (Error (html_page_message host)))"
  using makeApiRequest_status_500 [of w baseUrl endpoint s] makeApiRequest_json_500 [of w baseUrl endpoint s]
    configured_host_html_retryable [of host]
  by blast

text \<open>
  The theorem at a host that answers 500 with an empty object, and at one that answers 500
  with an HTML page.
\<close>

theorem makeApiRequest_500_three_attempts_witness:
  "(\<forall>n. \<exists>d. reply all_500 n (template (Some ''http://localhost:3000/api'') @ ''/listing/get'') = Json 500 d) \<and>
   makeApiRequest all_500 (Some ''http://localhost:3000/api'') ''/listing/get'' signed_in =
     (Inl (Some (Error ''Server internal error'')),
      signed_in\<lparr>events := events signed_in @
         [Fetch (template (Some ''http://localhost:3000/api'') @ ''/listing/get''), Sleep 1000,
          Fetch (template (Some ''http://localhost:3000/api'') @ ''/listing/get''), Sleep 2000,
          Fetch (template (Some ''http://localhost:3000/api'') @ ''/listing/get'')]\<rparr>) \<and>
   (\<forall>n. received_status all_500_html n (template (Some ''http://localhost:3000/api'') @ ''/listing/get'') = Some 500 \<and>
        reply all_500_html n (template (Some ''http://localhost:3000/api'') @ ''/listing/get'') = HtmlPage) \<and>
   makeApiRequest all_500_html (Some ''http://localhost:3000/api'') ''/listing/get'' signed_in =
     (Inl (Some (Error (html_page_message ''http://localhost:3000/api''))),
      signed_in\<lparr>events := events signed_in @
         [Fetch (template (Some ''http://localhost:3000/api'') @ ''/listing/get''), Sleep 1000,
          Fetch (template (Some ''http://localhost:3000/api'') @ ''/listing/get''), Sleep 2000,
          Fetch (template (Some ''http://localhost:3000/api'') @ ''/listing/get'')]\<rparr>) \<and>
   \<not> non_retryable (Error (html_page_message ''http://localhost:3000/api''))"
proof -
  let ?b = "Some ''http://localhost:3000/api''"
  let ?url = "template ?b @ ''/listing/get''"
  have h: "\<forall>n. \<exists>d. reply all_500 n ?url = Json 500 d"
    by (simp add: reply_def all_500_def always_def sample_world_def json_response_def
        read_responseData_def trim_braces sample_parse_def TIMEOUT_MS_def)
  have g: "\<forall>n. received_status all_500_html n ?url = Some 500 \<and> reply all_500_html n ?url = HtmlPage"
    by (simp add: reply_def received_status_def all_500_html_def always_def sample_world_def
        html_response_def TIMEOUT_MS_def)
  have c: "''http://localhost:3000/api'' \<in> set DEVELOPMENT_API_URLS"
    by (simp add: DEVELOPMENT_API_URLS_def)
  note inst1 = makeApiRequest_500_three_attempts
    [where w = all_500 and baseUrl = ?b and endpoint = "''/listing/get''" and s = signed_in
       and host = "''http://localhost:3000/api''"]
  note inst2 = makeApiRequest_500_three_attempts
    [where w = all_500_html and baseUrl = ?b and endpoint = "''/listing/get''" and s = signed_in
       and host = "''http://localhost:3000/api''"]
  from inst1 c have r: "\<not> non_retryable (Error (html_page_message ''http://localhost:3000/api''))"
    by blast
  from inst1 h have 1: "makeApiRequest all_500 ?b ''/listing/get'' signed_in =
     (Inl (Some (Error ''Server internal error'')),
      signed_in\<lparr>events := events signed_in @
         [Fetch ?url, Sleep 1000, Fetch ?url, Sleep 2000, Fetch ?url]\<rparr>)"
    by blast
  have "\<forall>n. received_status all_500_html n ?url = Some 500 \<and>
         (\<forall>pe. reply all_500_html n ?url = Unreadable pe \<longrightarrow>
            \<not> non_retryable (Error (''Invalid JSON response: '' @ message pe))) \<and>
         (reply all_500_html n ?url = HtmlPage \<longrightarrow>
            \<not> non_retryable (Error (html_page_message (template ?b))))"
    using g r by (simp add: template_def)
  with inst2 have "makeApiRequest all_500_html ?b ''/listing/get'' signed_in =
        (Inl (failure all_500_html ?b (reply all_500_html (length (requests signed_in) + 2) ?url)),
         signed_in\<lparr>events := events signed_in @
            [Fetch ?url, Sleep 1000, Fetch ?url, Sleep 2000, Fetch ?url]\<rparr>)"
    by blast
  with g have 2: "makeApiRequest all_500_html ?b ''/listing/get'' signed_in =
     (Inl (Some (Error (html_page_message ''http://localhost:3000/api''))),
      signed_in\<lparr>events := events signed_in @
         [Fetch ?url, Sleep 1000, Fetch ?url, Sleep 2000, Fetch ?url]\<rparr>)"
    by (simp add: failure_def template_def)
  from h 1 g 2 r show ?thesis by blast
qed

subsection \<open>The current index stays within the host list\<close>

text \<open>
  C7. The host list is not empty, the index starts within its bounds, and every operation of
  the module that runs from a state whose index is within bounds (the host-discovery probe,
  \<^verbatim>\<open>apiCall\<close> with its fallback, \<^verbatim>\<open>switchToNextApiUrl\<close>, and the health check)
  ends in a state whose index is within bounds.
\<close>

theorem current_index_in_bounds:
  "DEVELOPMENT_API_URLS \<noteq> [] \<and> index_in_bounds (initial_state store) \<and>
   (index_in_bounds s \<longrightarrow>
      index_in_bounds (snd (testMultipleIPs w s)) \<and>
      index_in_bounds (snd (apiCall w endpoint s)) \<and>
      index_in_bounds (snd (switchToNextApiUrl s)) \<and>
      index_in_bounds (snd (checkServerHealth w s)))"
proof -
  have "index_in_bounds (snd (switchToNextApiUrl s))" if "index_in_bounds s"
    using that by (simp add: switchToNextApiUrl_def index_in_bounds_def Let_def)
  moreover have "index_in_bounds (snd (checkServerHealth w s))" if "index_in_bounds s"
    using that
    by (simp add: checkServerHealth_def index_in_bounds_def Let_def split: sum.splits)
  ultimately show ?thesis
    by (simp add: testMultipleIPs_def testMultipleIPs_from_bounds apiCall_bounds)
       (simp add: DEVELOPMENT_API_URLS_def index_in_bounds_def initial_state_def)
qed

text \<open>The theorem at the initial state of a signed-in user, every host answering 200.\<close>

theorem current_index_in_bounds_witness:
  "index_in_bounds signed_in \<and>
   index_in_bounds (snd (testMultipleIPs (always (json_response 200 ''{}'')) signed_in)) \<and>
   index_in_bounds (snd (apiCall (always (json_response 200 ''{}'')) ''/listing/get'' signed_in)) \<and>
   index_in_bounds (snd (switchToNextApiUrl signed_in)) \<and>
   index_in_bounds (snd (checkServerHealth (always (json_response 200 ''{}'')) signed_in))"
proof -
  have h: "index_in_bounds signed_in"
    by (simp add: signed_in_def initial_state_def index_in_bounds_def DEVELOPMENT_API_URLS_def)
  from current_index_in_bounds [of "[''user'' \<mapsto> ''x'']" signed_in "always (json_response 200 ''{}'')" "''/listing/get''"] h
  show ?thesis by simp
qed

subsection \<open>A successful fallback moves the current host\<close>

text \<open>
  C8. If the retry sub-procedure fails against the current host and the call still returns
  a result, then a configured host other than the current one returned that result, its
  request is the last one of the call, and after the call both \<^verbatim>\<open>API_BASE_URL\<close> and the
  entry of the host list at \<^verbatim>\<open>currentApiIndex\<close> are that host; the next call, whatever
  the network does, sends its first request there.
\<close>

theorem apiCall_promotes_fallback_host:
  assumes "makeApiRequest w (API_BASE_URL s) endpoint s = (Inl e, s1)"
    and "apiCall w endpoint s = (Inr res, s')"
  shows "\<exists>devUrl t t'.
           devUrl \<in> set DEVELOPMENT_API_URLS \<and> Some devUrl \<noteq> API_BASE_URL s \<and>
           makeApiRequest w (Some devUrl) endpoint t = (Inr res, t') \<and>
           requests s' = requests t' \<and> last (requests s') = devUrl @ endpoint \<and>
           API_BASE_URL s' = Some devUrl \<and>
           array_get DEVELOPMENT_API_URLS (currentApiIndex s') = Some devUrl \<and>
           (\<forall>w' endpoint'. \<exists>more.
              requests (snd (apiCall w' endpoint' s')) = requests s' @ (devUrl @ endpoint') # more)"
proof -
  from makeApiRequest_frame [OF assms(1)] have fr: "API_BASE_URL s1 = API_BASE_URL s"
    and "e \<noteq> None"
    by auto
  then obtain e' where e: "e = Some e'" by auto
  obtain out s2 where f0: "fallback_loop w DEVELOPMENT_API_URLS endpoint [API_BASE_URL s1] s1 = (out, s2)"
    by fastforce
  with assms e have "out = Returned res \<and> s2 = s'"
    by (cases out) (simp_all add: apiCall_def)
  with f0 have f: "fallback_loop w DEVELOPMENT_API_URLS endpoint [API_BASE_URL s1] s1 = (Returned res, s')"
    and "out = Returned res"
    by simp_all
  with fallback_loop_cases [OF f] have "promoted w endpoint DEVELOPMENT_API_URLS s1 res s'" by simp
  then obtain devUrl t t' where p: "devUrl \<in> set DEVELOPMENT_API_URLS"
      "Some devUrl \<noteq> API_BASE_URL s1"
      "makeApiRequest w (Some devUrl) endpoint t = (Inr res, t')"
      "s' = t'\<lparr>API_BASE_URL := Some devUrl, currentApiIndex := indexOf DEVELOPMENT_API_URLS devUrl\<rparr>"
    unfolding promoted_def by blast
  from makeApiRequest_frame [OF p(3)] obtain k where k: "1 \<le> k"
    "requests t' = requests t @ replicate k (devUrl @ endpoint)"
    by (auto simp: template_def)
  from k have l: "last (requests t') = devUrl @ endpoint" by (cases k) auto
  have next_call: "\<exists>more. requests (snd (apiCall w' endpoint' s')) =
      requests s' @ (devUrl @ endpoint') # more" for w' endpoint'
    using apiCall_first_request [of w' endpoint' s'] p(4) by (simp add: template_def)
  show ?thesis
    apply (rule exI [of _ devUrl])
    apply (rule exI [of _ t])
    apply (rule exI [of _ t'])
    using p fr l indexOf_nth [OF p(1)] next_call by simp
qed

lemma first_host_down_request:
  \<open>observe (makeApiRequest first_host_down (API_BASE_URL signed_in) ''/listing/get'' signed_in) =
     (Inl (Some (Error ''Request timeout'')), Some ''http://192.168.100.46:3000/api'', 0,
      [Fetch ''http://192.168.100.46:3000/api/listing/get'', Sleep 1000,
       Fetch ''http://192.168.100.46:3000/api/listing/get'', Sleep 2000,
       Fetch ''http://192.168.100.46:3000/api/listing/get''],
      Some ''{"token":"abc"}'')\<close>
  by code_simp

lemma first_host_down_call:
  \<open>observe (apiCall first_host_down ''/listing/get'' signed_in) =
     (Inr (JObject [(''ok'', JBool True)]), Some ''http://192.168.100.1:3000/api'', 1,
      [Fetch ''http://192.168.100.46:3000/api/listing/get'', Sleep 1000,
       Fetch ''http://192.168.100.46:3000/api/listing/get'', Sleep 2000,
       Fetch ''http://192.168.100.46:3000/api/listing/get'',
       Fetch ''http://192.168.100.1:3000/api/listing/get''],
      Some ''{"token":"abc"}'')\<close>
  by code_simp

text \<open>The theorem where the first host times out three times and the second answers.\<close>

theorem apiCall_promotes_fallback_host_witness:
  "makeApiRequest first_host_down (API_BASE_URL signed_in) ''/listing/get'' signed_in =
     (Inl (Some (Error ''Request timeout'')),
      snd (makeApiRequest first_host_down (API_BASE_URL signed_in) ''/listing/get'' signed_in)) \<and>
   apiCall first_host_down ''/listing/get'' signed_in =
     (Inr (JObject [(''ok'', JBool True)]), snd (apiCall first_host_down ''/listing/get'' signed_in)) \<and>
   (\<exists>devUrl.
      devUrl \<in> set DEVELOPMENT_API_URLS \<and> Some devUrl \<noteq> API_BASE_URL signed_in \<and>
      last (requests (snd (apiCall first_host_down ''/listing/get'' signed_in))) = devUrl @ ''/listing/get'' \<and>
      API_BASE_URL (snd (apiCall first_host_down ''/listing/get'' signed_in)) = Some devUrl \<and>
      array_get DEVELOPMENT_API_URLS
        (currentApiIndex (snd (apiCall first_host_down ''/listing/get'' signed_in))) = Some devUrl)"
proof -
  have h1: "makeApiRequest first_host_down (API_BASE_URL signed_in) ''/listing/get'' signed_in =
      (Inl (Some (Error ''Request timeout'')),
       snd (makeApiRequest first_host_down (API_BASE_URL signed_in) ''/listing/get'' signed_in))"
    using first_host_down_request by (simp add: observe_def prod_eq_iff)
  have h2: "apiCall first_host_down ''/listing/get'' signed_in =
      (Inr (JObject [(''ok'', JBool True)]), snd (apiCall first_host_down ''/listing/get'' signed_in))"
    using first_host_down_call by (simp add: observe_def prod_eq_iff)
  from apiCall_promotes_fallback_host [OF h1 h2] h1 h2 show ?thesis
    by blast
qed

subsection \<open>The fallback and its retries\<close>





subsection \<open>The aggregate error\<close>

text \<open>
  C5. With the first host answering 500 and the others 404, every host fails and the call
  fails with the aggregate error. Its message counts the three endpoints tried, and carries
  the message of the error of the first host (\<^verbatim>\<open>Server internal error\<close>), while the last
  underlying error, that of the last host, is \<^verbatim>\<open>API endpoint not found\<close>: the
  \<^verbatim>\<open>catch\<close> of the fallback loop does not assign \<^verbatim>\<open>lastError\<close>.
\<close>

theorem aggregate_error_names_first_error:
  \<open>observe (apiCall first_500_rest_404 ''/listing/get'' signed_in) =
     (Inl (Error ''API call failed: Server internal error. Tried 3 endpoints.''),
      Some ''http://192.168.100.46:3000/api'', 0,
      [Fetch ''http://192.168.100.46:3000/api/listing/get'', Sleep 1000,
       Fetch ''http://192.168.100.46:3000/api/listing/get'', Sleep 2000,
       Fetch ''http://192.168.100.46:3000/api/listing/get'',
       Fetch ''http://192.168.100.1:3000/api/listing/get'',
       Fetch ''http://localhost:3000/api/listing/get''],
      Some ''{"token":"abc"}'') \<and>
   fst (makeApiRequest first_500_rest_404 (Some ''http://localhost:3000/api'') ''/listing/get'' signed_in) =
     Inl (Some (Error ''API endpoint not found''))\<close>
  by code_simp

subsection \<open>A 401 response\<close>




subsection \<open>A body that is not JSON\<close>

text \<open>
  C3, as stated, fails: against a host whose body never parses, the retry sub-procedure does
  not stop after the first parse failure. It makes three requests, with the two waits.
\<close>

theorem unparseable_body_retried_counterexample:
  "reply all_unparseable 0 ''http://localhost:3000/api/listing/get'' = Unreadable (Error ''Unexpected token'') \<and>
   observe (makeApiRequest all_unparseable (Some ''http://localhost:3000/api'') ''/listing/get''
              (initial_state Map.empty)) =
     (Inl (Some (Error ''Invalid JSON response: Unexpected token'')),
      Some ''http://192.168.100.46:3000/api'', 0,
      [Fetch ''http://localhost:3000/api/listing/get'', Sleep 1000,
       Fetch ''http://localhost:3000/api/listing/get'', Sleep 2000,
       Fetch ''http://localhost:3000/api/listing/get''],
      None)"
  by code_simp

text \<open>
  C3, amended. A response that is not an HTML page and whose body is blank (empty after
  trimming) is read as the empty object with its status, not as a parse failure; a 2xx
  response of this kind returns \<^verbatim>\<open>{}\<close>. A body that cannot be read or parsed is a failure
  with the message \<^verbatim>\<open>Invalid JSON response: ...\<close>, and it is retried like any other
  failure: at the third attempt, or when that message contains \<^verbatim>\<open>Authentication failed\<close>
  or \<^verbatim>\<open>not found\<close>, the loop ends with this error, having sent one request; otherwise it
  sends the request, waits \<open>attempt * 1000\<close> ms and runs the next attempt against the same
  host. A host none of whose bodies parses, the messages containing neither marker, receives
  exactly three requests, with a wait of 1000 ms after the first and of 2000 ms after the
  second, and the error is that of the third.
\<close>

theorem unparseable_body_retried:
  "(withTimeout (fetch w n url) TIMEOUT_MS = Inr resp \<and>
    \<not> str_includes (case content_type resp of None \<Rightarrow> [] | Some c \<Rightarrow> c) ''text/html'' \<and>
    body resp = Inr responseText \<and> trim responseText = [] \<longrightarrow>
      reply w n url = Json (status resp) (JObject [])) \<and>
   (withTimeout (fetch w (length (requests s)) url) TIMEOUT_MS = Inr resp \<and>
    \<not> str_includes (case content_type resp of None \<Rightarrow> [] | Some c \<Rightarrow> c) ''text/html'' \<and>
    body resp = Inr responseText \<and> trim responseText = [] \<and> ok resp \<longrightarrow>
      attempt_once w b url s = (Inr (JObject []), s\<lparr>events := events s @ [Fetch url]\<rparr>)) \<and>
   (a \<le> MAX_RETRIES \<and> reply w (length (requests s)) url = Unreadable pe \<longrightarrow>
      retry_loop w b url a le s =
        (if non_retryable (Error (''Invalid JSON response: '' @ message pe)) \<or> a = MAX_RETRIES
         then (Inl (Some (Error (''Invalid JSON response: '' @ message pe))),
               s\<lparr>events := events s @ [Fetch url]\<rparr>)
         else retry_loop w b url (a + 1) (Some (Error (''Invalid JSON response: '' @ message pe)))
                (s\<lparr>events := events s @ [Fetch url, Sleep (a * 1000)]\<rparr>))) \<and>
   ((\<forall>n. \<exists>pe. reply w n (template b @ endpoint) = Unreadable pe \<and>
          \<not> non_retryable (Error (''Invalid JSON response: '' @ message pe))) \<longrightarrow>
      (\<exists>pe. reply w (length (requests s) + 2) (template b @ endpoint) = Unreadable pe \<and>
         makeApiRequest w b endpoint s =
           (Inl (Some (Error (''Invalid JSON response: '' @ message pe))),
            s\<lparr>events := events s @
               [Fetch (template b @ endpoint), Sleep 1000, Fetch (template b @ endpoint), Sleep 2000,
                Fetch (template b @ endpoint)]\<rparr>)))"
  using blank_body_reply [of w n url resp responseText]
    blank_body_attempt [of w s url resp responseText b]
    unreadable_step [of a w s url pe b le]
    unreadable_host [of w b endpoint s]
  by blast

text \<open>
  The theorem at an empty 404 response, an empty 200 response, and a host whose body is plain
  prose.
\<close>

theorem unparseable_body_retried_witness:
  "reply (always (json_response 404 [])) 0 ''http://localhost:3000/api/listing/get'' = Json 404 (JObject []) \<and>
   attempt_once (always (json_response 200 [])) (Some ''http://localhost:3000/api'')
       ''http://localhost:3000/api/listing/get'' (initial_state Map.empty) =
     (Inr (JObject []),
      (initial_state Map.empty)\<lparr>events := events (initial_state Map.empty) @
         [Fetch ''http://localhost:3000/api/listing/get'']\<rparr>) \<and>
   retry_loop all_unparseable (Some ''http://localhost:3000/api'')
       ''http://localhost:3000/api/listing/get'' 3 None (initial_state Map.empty) =
     (Inl (Some (Error ''Invalid JSON response: Unexpected token'')),
      (initial_state Map.empty)\<lparr>events := events (initial_state Map.empty) @
         [Fetch ''http://localhost:3000/api/listing/get'']\<rparr>) \<and>
   makeApiRequest all_unparseable (Some ''http://localhost:3000/api'') ''/listing/get'' (initial_state Map.empty) =
     (Inl (Some (Error ''Invalid JSON response: Unexpected token'')),
      (initial_state Map.empty)\<lparr>events := events (initial_state Map.empty) @
         [Fetch ''http://localhost:3000/api/listing/get'', Sleep 1000,
          Fetch ''http://localhost:3000/api/listing/get'', Sleep 2000,
          Fetch ''http://localhost:3000/api/listing/get'']\<rparr>)"
proof -
  let ?s = "initial_state Map.empty"
  let ?b = "Some ''http://localhost:3000/api''"
  let ?url = "''http://localhost:3000/api/listing/get''"
  let ?pe = "Error ''Unexpected token''"
  have u: "template ?b @ ''/listing/get'' = ?url" by (simp add: template_def)
  have e: "Error (''Invalid JSON response: '' @ message ?pe) = Error ''Invalid JSON response: Unexpected token''"
    by simp
  have h0: "withTimeout (fetch (always (json_response 404 [])) 0 ?url) TIMEOUT_MS = Inr (json_response 404 []) \<and>
    \<not> str_includes (case content_type (json_response 404 []) of None \<Rightarrow> [] | Some c \<Rightarrow> c) ''text/html'' \<and>
    body (json_response 404 []) = Inr [] \<and> trim [] = [] \<and> status (json_response 404 []) = 404"
    by code_simp
  have h1: "withTimeout (fetch (always (json_response 200 [])) (length (requests ?s)) ?url) TIMEOUT_MS =
      Inr (json_response 200 []) \<and>
    \<not> str_includes (case content_type (json_response 200 []) of None \<Rightarrow> [] | Some c \<Rightarrow> c) ''text/html'' \<and>
    body (json_response 200 []) = Inr [] \<and> trim [] = [] \<and> ok (json_response 200 [])"
    by code_simp
  have h2: "reply all_unparseable n ?url = Unreadable ?pe" for n
    by (simp add: reply_def all_unparseable_def always_def sample_world_def plain_response_def
        read_responseData_def sample_parse_def TIMEOUT_MS_def trim_prose)
  have h3: "\<not> non_retryable (Error (''Invalid JSON response: '' @ message ?pe))"
    by (simp add: non_retryable_def)
  have h4: "(3::nat) \<le> MAX_RETRIES" "(3::nat) = MAX_RETRIES" by (simp_all add: MAX_RETRIES_def)
  from unparseable_body_retried
    [where w = "always (json_response 404 [])" and n = 0 and url = ?url and resp = "json_response 404 []"
       and responseText = "[]"] h0
  have c0: "reply (always (json_response 404 [])) 0 ?url = Json 404 (JObject [])"
    by simp
  from unparseable_body_retried
    [where w = "always (json_response 200 [])" and s = ?s and url = ?url and resp = "json_response 200 []"
       and responseText = "[]" and b = ?b] h1
  have c1: "attempt_once (always (json_response 200 [])) ?b ?url ?s =
      (Inr (JObject []), ?s\<lparr>events := events ?s @ [Fetch ?url]\<rparr>)"
    by blast
  from unparseable_body_retried
    [where w = all_unparseable and s = ?s and url = ?url and a = 3 and pe = ?pe and b = ?b and le = None]
    h2 [of "length (requests ?s)"] h4
  have c2: "retry_loop all_unparseable ?b ?url 3 None ?s =
      (Inl (Some (Error ''Invalid JSON response: Unexpected token'')),
       ?s\<lparr>events := events ?s @ [Fetch ?url]\<rparr>)"
    by simp
  have "\<forall>n. \<exists>pe. reply all_unparseable n (template ?b @ ''/listing/get'') = Unreadable pe \<and>
          \<not> non_retryable (Error (''Invalid JSON response: '' @ message pe))"
    using h2 h3 unfolding u by blast
  with unparseable_body_retried
    [where w = all_unparseable and s = ?s and b = ?b and endpoint = "''/listing/get''"]
  obtain pe where r: "reply all_unparseable (length (requests ?s) + 2) (template ?b @ ''/listing/get'') = Unreadable pe"
    and m: "makeApiRequest all_unparseable ?b ''/listing/get'' ?s =
           (Inl (Some (Error (''Invalid JSON response: '' @ message pe))),
            ?s\<lparr>events := events ?s @
               [Fetch (template ?b @ ''/listing/get''), Sleep 1000, Fetch (template ?b @ ''/listing/get''),
                Sleep 2000, Fetch (template ?b @ ''/listing/get'')]\<rparr>)"
    by blast
  from r h2 [of "length (requests ?s) + 2"] have "pe = ?pe"
    unfolding u by simp
  with m have c3: "makeApiRequest all_unparseable ?b ''/listing/get'' ?s =
     (Inl (Some (Error ''Invalid JSON response: Unexpected token'')),
      ?s\<lparr>events := events ?s @ [Fetch ?url, Sleep 1000, Fetch ?url, Sleep 2000, Fetch ?url]\<rparr>)"
    unfolding u by simp
  from c0 c1 c2 c3 show ?thesis by blast
qed

subsection \<open>An HTML error page\<close>

text \<open>
  C4, as stated, fails: against a host that answers with an HTML page, the retry
  sub-procedure does not stop after the first such response. It makes three requests, with
  the two waits.
\<close>

theorem html_page_retried_counterexample:
  "reply all_html 0 ''http://localhost:3000/api/listing/get'' = HtmlPage \<and>
   observe (makeApiRequest all_html (Some ''http://localhost:3000/api'') ''/listing/get''
              (initial_state Map.empty)) =
     (Inl (Some (Error (html_page_message ''http://localhost:3000/api''))),
      Some ''http://192.168.100.46:3000/api'', 0,
      [Fetch ''http://localhost:3000/api/listing/get'', Sleep 1000,
       Fetch ''http://localhost:3000/api/listing/get'', Sleep 2000,
       Fetch ''http://localhost:3000/api/listing/get''],
      None)"
  by code_simp

text \<open>
  C4, amended. For every configured host, a response whose content type contains
  \<^verbatim>\<open>text/html\<close> is a failure that is retried like any other: before the third attempt
  the loop sends the request, waits \<open>attempt * 1000\<close> ms and runs the next attempt against
  the same host; the third attempt ends the loop with the error of the HTML page, having
  sent one request. A configured host that answers every request with an HTML page receives
  exactly three requests, with a wait of 1000 ms after the first and of 2000 ms after the
  second.
\<close>

theorem html_page_retried:
  "(a \<le> MAX_RETRIES \<and> host \<in> set DEVELOPMENT_API_URLS \<and>
    reply w (length (requests s)) url = HtmlPage \<longrightarrow>
      retry_loop w (Some host) url a le s =
        (if a = MAX_RETRIES
         then (Inl (Some (Error (html_page_message host))), s\<lparr>events := events s @ [Fetch url]\<rparr>)
         else retry_loop w (Some host) url (a + 1) (Some (Error (html_page_message host)))
                (s\<lparr>events := events s @ [Fetch url, Sleep (a * 1000)]\<rparr>))) \<and>
   (host \<in> set DEVELOPMENT_API_URLS \<and> (\<forall>n. reply w n (host @ endpoint) = HtmlPage) \<longrightarrow>
      makeApiRequest w (Some host) endpoint s =
        (Inl (Some (Error (html_page_message host))),
         s\<lparr>events := events s @
            [Fetch (host @ endpoint), Sleep 1000, Fetch (host @ endpoint), Sleep 2000,
             Fetch (host @ endpoint)]\<rparr>))"
  using html_step [of a host w s url le] html_host [of host w endpoint s]
  by blast

text \<open>The theorem at a host that answers with an HTML page, at the third attempt and as a whole.\<close>

theorem html_page_retried_witness:
  "retry_loop all_html (Some ''http://localhost:3000/api'')
       ''http://localhost:3000/api/listing/get'' 3 None (initial_state Map.empty) =
     (Inl (Some (Error (html_page_message ''http://localhost:3000/api''))),
      (initial_state Map.empty)\<lparr>events := events (initial_state Map.empty) @
         [Fetch ''http://localhost:3000/api/listing/get'']\<rparr>) \<and>
   makeApiRequest all_html (Some ''http://localhost:3000/api'') ''/listing/get'' (initial_state Map.empty) =
     (Inl (Some (Error (html_page_message ''http://localhost:3000/api''))),
      (initial_state Map.empty)\<lparr>events := events (initial_state Map.empty) @
         [Fetch ''http://localhost:3000/api/listing/get'', Sleep 1000,
          Fetch ''http://localhost:3000/api/listing/get'', Sleep 2000,
          Fetch ''http://localhost:3000/api/listing/get'']\<rparr>)"
proof -
  let ?s = "initial_state Map.empty"
  let ?h = "''http://localhost:3000/api''"
  let ?url = "''http://localhost:3000/api/listing/get''"
  have u: "?h @ ''/listing/get'' = ?url" by simp
  have h1: "?h \<in> set DEVELOPMENT_API_URLS" by (simp add: DEVELOPMENT_API_URLS_def)
  have h2: "reply all_html n ?url = HtmlPage" for n
    by (simp add: reply_def all_html_def always_def sample_world_def html_response_def TIMEOUT_MS_def)
  have h3: "(3::nat) \<le> MAX_RETRIES" "(3::nat) = MAX_RETRIES" by (simp_all add: MAX_RETRIES_def)
  from html_page_retried
    [where a = 3 and host = ?h and w = all_html and s = ?s and url = ?url and le = None]
    h1 h2 [of "length (requests ?s)"] h3
  have c1: "retry_loop all_html (Some ?h) ?url 3 None ?s =
      (Inl (Some (Error (html_page_message ?h))), ?s\<lparr>events := events ?s @ [Fetch ?url]\<rparr>)"
    by simp
  have "\<forall>n. reply all_html n (?h @ ''/listing/get'') = HtmlPage"
    using h2 unfolding u by blast
  with html_page_retried [where host = ?h and w = all_html and s = ?s and endpoint = "''/listing/get''"] h1
  have c2: "makeApiRequest all_html (Some ?h) ''/listing/get'' ?s =
      (Inl (Some (Error (html_page_message ?h))),
       ?s\<lparr>events := events ?s @ [Fetch (?h @ ''/listing/get''), Sleep 1000, Fetch (?h @ ''/listing/get''),
          Sleep 2000, Fetch (?h @ ''/listing/get'')]\<rparr>)"
    by blast
  from c1 c2 show ?thesis unfolding u by blast
qed

subsection \<open>Retryability is read off the message\<close>

text \<open>
  C10, as stated, fails for the status 500: the server's message field contains
  \<^verbatim>\<open>not found\<close>, but the error raised is \<^verbatim>\<open>Server internal error\<close>, and the host is
  tried three times.
\<close>

theorem server_error_not_found_counterexample:
  "reply all_500_not_found 0 ''http://localhost:3000/api/listing/get'' =
     Json 500 (JObject [(''message'', JString ''not found'')]) \<and>
   observe (makeApiRequest all_500_not_found (Some ''http://localhost:3000/api'') ''/listing/get''
              (initial_state Map.empty)) =
     (Inl (Some (Error ''Server internal error'')),
      Some ''http://192.168.100.46:3000/api'', 0,
      [Fetch ''http://localhost:3000/api/listing/get'', Sleep 1000,
       Fetch ''http://localhost:3000/api/listing/get'', Sleep 2000,
       Fetch ''http://localhost:3000/api/listing/get''],
      None)"
  by code_simp

text \<open>
  C10, amended. A failed attempt ends the retry loop, in the state the attempt left, when
  the message of its error contains \<^verbatim>\<open>Authentication failed\<close> or \<^verbatim>\<open>not found\<close>, or when
  it is the third attempt; otherwise the loop waits \<open>attempt * 1000\<close> ms and sends the next
  request. Consequently a non-2xx response with a status other than 500 that is read as JSON
  (not an HTML page, its body parsed) and whose message field is a string containing
  \<^verbatim>\<open>not found\<close> ends the loop at that attempt. A 500 response read as JSON is reported as
  \<^verbatim>\<open>Server internal error\<close> whatever its message field says, and is retried: before the
  third attempt the loop waits and sends the next request.
\<close>

theorem retry_decided_by_message:
  "(a \<le> MAX_RETRIES \<and> attempt_once w b url s = (Inl e, s') \<longrightarrow>
      retry_loop w b url a le s =
        (if str_includes (message e) ''Authentication failed'' \<or> str_includes (message e) ''not found'' \<or>
            a = MAX_RETRIES
         then (Inl (Some e), s')
         else retry_loop w b url (a + 1) (Some e) (s'\<lparr>events := events s' @ [Sleep (a * 1000)]\<rparr>))) \<and>
   (a < MAX_RETRIES \<and> attempt_once w b url s = (Inl e, s') \<and>
    \<not> (str_includes (message e) ''Authentication failed'' \<or> str_includes (message e) ''not found'') \<longrightarrow>
      (\<exists>more. events (snd (retry_loop w b url a le s)) =
         events s' @ Sleep (a * 1000) # Fetch url # more)) \<and>
   (a \<le> MAX_RETRIES \<and> reply w (length (requests s)) url = Json st d \<and>
    \<not> (200 \<le> st \<and> st \<le> 299) \<and> st \<noteq> 500 \<and>
    member d ''message'' = Some (JString m) \<and> str_includes m ''not found'' \<longrightarrow>
      retry_loop w b url a le s =
        (Inl (Some (if st = 401 then Error ''Authentication failed''
                    else if st = 404 then Error ''API endpoint not found'' else Error m)),
         if st = 401
         then s\<lparr>events := events s @ [Fetch url], AsyncStorage := (AsyncStorage s)(''user'' := None)\<rparr>
         else s\<lparr>events := events s @ [Fetch url]\<rparr>)) \<and>
   (a \<le> MAX_RETRIES \<and> reply w (length (requests s)) url = Json 500 d \<longrightarrow>
      retry_loop w b url a le s =
        (if a = MAX_RETRIES
         then (Inl (Some (Error ''Server internal error'')), s\<lparr>events := events s @ [Fetch url]\<rparr>)
         else retry_loop w b url (a + 1) (Some (Error ''Server internal error''))
                (s\<lparr>events := events s @ [Fetch url, Sleep (a * 1000)]\<rparr>))) \<and>
   (a < MAX_RETRIES \<and> reply w (length (requests s)) url = Json 500 d \<longrightarrow>
      (\<exists>more. events (snd (retry_loop w b url a le s)) =
         events s @ Fetch url # Sleep (a * 1000) # Fetch url # more))"
  using retry_loop_by_message [of a w b url s e s' le]
    retry_loop_next_request [of a w b url s e s' le]
    not_found_message_stops_here [of a w s url st d m b le]
    server_error_step [of a w s url d b le]
    server_error_next_request [of a w s url d b le]
  by blast

text \<open>The theorem at a host that answers 400 with the message, and at one that answers 500.\<close>

theorem retry_decided_by_message_witness:
  "attempt_once all_400_not_found (Some ''http://localhost:3000/api'') ''http://localhost:3000/api/listing/get''
       (initial_state Map.empty) =
     (Inl (Error ''not found''),
      (initial_state Map.empty)\<lparr>events := events (initial_state Map.empty) @
         [Fetch ''http://localhost:3000/api/listing/get'']\<rparr>) \<and>
   retry_loop all_400_not_found (Some ''http://localhost:3000/api'')
       ''http://localhost:3000/api/listing/get'' 1 None (initial_state Map.empty) =
     (Inl (Some (Error ''not found'')),
      (initial_state Map.empty)\<lparr>events := events (initial_state Map.empty) @
         [Fetch ''http://localhost:3000/api/listing/get'']\<rparr>) \<and>
   reply all_400_not_found (length (requests (initial_state Map.empty))) ''http://localhost:3000/api/listing/get'' =
     Json 400 (JObject [(''message'', JString ''not found'')]) \<and>
   attempt_once all_500 (Some ''http://localhost:3000/api'') ''http://localhost:3000/api/listing/get''
       (initial_state Map.empty) =
     (Inl (Error ''Server internal error''),
      (initial_state Map.empty)\<lparr>events := events (initial_state Map.empty) @
         [Fetch ''http://localhost:3000/api/listing/get'']\<rparr>) \<and>
   (\<exists>more. events (snd (retry_loop all_500 (Some ''http://localhost:3000/api'')
                 ''http://localhost:3000/api/listing/get'' 1 None (initial_state Map.empty))) =
            events ((initial_state Map.empty)\<lparr>events := events (initial_state Map.empty) @
               [Fetch ''http://localhost:3000/api/listing/get'']\<rparr>) @
            Sleep (1 * 1000) # Fetch ''http://localhost:3000/api/listing/get'' # more) \<and>
   reply all_500 (length (requests (initial_state Map.empty))) ''http://localhost:3000/api/listing/get'' =
     Json 500 (JObject []) \<and>
   retry_loop all_500 (Some ''http://localhost:3000/api'')
       ''http://localhost:3000/api/listing/get'' 3 None (initial_state Map.empty) =
     (Inl (Some (Error ''Server internal error'')),
      (initial_state Map.empty)\<lparr>events := events (initial_state Map.empty) @
         [Fetch ''http://localhost:3000/api/listing/get'']\<rparr>) \<and>
   (\<exists>more. events (snd (retry_loop all_500 (Some ''http://localhost:3000/api'')
                 ''http://localhost:3000/api/listing/get'' 1 None (initial_state Map.empty))) =
            events (initial_state Map.empty) @
            Fetch ''http://localhost:3000/api/listing/get'' # Sleep (1 * 1000) #
            Fetch ''http://localhost:3000/api/listing/get'' # more)"
proof -
  let ?s = "initial_state Map.empty"
  let ?s1 = "?s\<lparr>events := events ?s @ [Fetch ''http://localhost:3000/api/listing/get'']\<rparr>"
  let ?b = "Some ''http://localhost:3000/api''"
  let ?url = "''http://localhost:3000/api/listing/get''"
  let ?d = "JObject [(''message'', JString ''not found'')]"
  let ?e = "Error ''Server internal error''"
  have r4: "reply all_400_not_found (length (requests ?s)) ?url = Json 400 ?d"
    by code_simp
  have n4: "new_Error all_400_not_found (errorMessage ?d 400) = Error ''not found''"
    by code_simp
  from r4 n4 have once4: "attempt_once all_400_not_found ?b ?url ?s = (Inl (Error ''not found''), ?s1)"
    by (simp add: attempt_once_reply)
  have h4: "\<not> (200 \<le> (400::nat) \<and> (400::nat) \<le> 299) \<and> (400::nat) \<noteq> 500 \<and>
      member ?d ''message'' = Some (JString ''not found'') \<and> str_includes ''not found'' ''not found''"
    by code_simp
  have r5: "reply all_500 (length (requests ?s)) ?url = Json 500 (JObject [])"
    by code_simp
  then have once5: "attempt_once all_500 ?b ?url ?s = (Inl ?e, ?s1)"
    by (simp add: attempt_once_reply)
  have a: "(1::nat) \<le> MAX_RETRIES" "(1::nat) < MAX_RETRIES" "(1::nat) \<noteq> MAX_RETRIES"
      "(3::nat) \<le> MAX_RETRIES" "(3::nat) = MAX_RETRIES"
    by (simp_all add: MAX_RETRIES_def)
  have m: "\<not> (str_includes (message ?e) ''Authentication failed'' \<or> str_includes (message ?e) ''not found'')"
    by simp
  have m4: "str_includes (message (Error ''not found'')) ''not found''"
    by simp
  from retry_decided_by_message
    [where a = 1 and w = all_400_not_found and b = ?b and url = ?url and s = ?s
       and e = "Error ''not found''" and s' = ?s1 and le = None]
    a(1) once4 m4
  have c1: "retry_loop all_400_not_found ?b ?url 1 None ?s = (Inl (Some (Error ''not found'')), ?s1)"
    by simp
  from retry_decided_by_message
    [where a = 1 and w = all_500 and b = ?b and url = ?url and s = ?s and e = ?e and s' = ?s1 and le = None]
    a(2) once5 m
  have c2: "\<exists>more. events (snd (retry_loop all_500 ?b ?url 1 None ?s)) =
      events ?s1 @ Sleep (1 * 1000) # Fetch ?url # more"
    by blast
  from retry_decided_by_message
    [where a = 1 and w = all_400_not_found and b = ?b and url = ?url and s = ?s and st = 400 and d = ?d
       and m = "''not found''" and le = None]
    a(1) r4 h4
  have c3: "retry_loop all_400_not_found ?b ?url 1 None ?s = (Inl (Some (Error ''not found'')), ?s1)"
    by simp
  from retry_decided_by_message
    [where a = 3 and w = all_500 and b = ?b and url = ?url and s = ?s and d = "JObject []" and le = None]
    a(4,5) r5
  have c4: "retry_loop all_500 ?b ?url 3 None ?s = (Inl (Some ?e), ?s1)"
    by simp
  from retry_decided_by_message
    [where a = 1 and w = all_500 and b = ?b and url = ?url and s = ?s and d = "JObject []" and le = None]
    a(2) r5
  have c5: "\<exists>more. events (snd (retry_loop all_500 ?b ?url 1 None ?s)) =
      events ?s @ Fetch ?url # Sleep (1 * 1000) # Fetch ?url # more"
    by blast
  from once4 c1 c3 r4 once5 c2 r5 c4 c5 show ?thesis by blast
qed

subsection \<open>The health check\<close>

text \<open>
  C9, as stated, fails: a 204 response is a 2xx response, but its empty body does not parse,
  and the result is \<^verbatim>\<open>healthy: false\<close> with the parser's message.
\<close>

theorem checkServerHealth_unparseable_counterexample:
  "withTimeout (fetch all_204 0 ''http://192.168.100.46:3000/api/debug/test'') 8000 = Inr (json_response 204 []) \<and>
   ok (json_response 204 []) \<and>
   observe (checkServerHealth all_204 (initial_state Map.empty)) =
     (\<lparr>healthy = False, health_status = None, health_data = None,
       health_error = Some ''Unexpected end of JSON input''\<rparr>,
      Some ''http://192.168.100.46:3000/api'', 0, [Fetch ''http://192.168.100.46:3000/api/debug/test''], None)"
  by code_simp

text \<open>
  C9, amended. \<^verbatim>\<open>checkServerHealth\<close> always returns a structured result, after one
  request to the diagnostic path of the current host: \<^verbatim>\<open>healthy: true\<close> with the status
  and the payload for a 2xx response whose body parses as JSON; \<^verbatim>\<open>healthy: false\<close> with
  the status for a non-2xx response; \<^verbatim>\<open>healthy: false\<close> with the error message when no
  response arrives (the message is \<^verbatim>\<open>Request timeout\<close> when the request is still unsettled
  after 8000 ms), and also when a 2xx response has a body that cannot be read or parsed.
\<close>

theorem checkServerHealth_result:
  "(withTimeout (fetch w (length (requests s)) (template (API_BASE_URL s) @ ''/debug/test'')) 8000 = Inr resp \<and>
    ok resp \<and> response_json w resp = Inr payload \<longrightarrow>
      fst (checkServerHealth w s) =
        \<lparr>healthy = True, health_status = Some (status resp), health_data = Some payload,
         health_error = None\<rparr>) \<and>
   (withTimeout (fetch w (length (requests s)) (template (API_BASE_URL s) @ ''/debug/test'')) 8000 = Inr resp \<and>
    ok resp \<and> response_json w resp = Inl e \<longrightarrow>
      fst (checkServerHealth w s) =
        \<lparr>healthy = False, health_status = None, health_data = None, health_error = Some (message e)\<rparr>) \<and>
   (withTimeout (fetch w (length (requests s)) (template (API_BASE_URL s) @ ''/debug/test'')) 8000 = Inr resp \<and>
    \<not> ok resp \<longrightarrow>
      fst (checkServerHealth w s) =
        \<lparr>healthy = False, health_status = Some (status resp), health_data = None, health_error = None\<rparr>) \<and>
   (withTimeout (fetch w (length (requests s)) (template (API_BASE_URL s) @ ''/debug/test'')) 8000 = Inl e \<longrightarrow>
      fst (checkServerHealth w s) =
        \<lparr>healthy = False, health_status = None, health_data = None, health_error = Some (message e)\<rparr>) \<and>
   (fetch w (length (requests s)) (template (API_BASE_URL s) @ ''/debug/test'') = Pending \<or>
    fetch w (length (requests s)) (template (API_BASE_URL s) @ ''/debug/test'') = Fulfils ms resp \<and> 8000 < ms \<longrightarrow>
      fst (checkServerHealth w s) =
        \<lparr>healthy = False, health_status = None, health_data = None,
         health_error = Some ''Request timeout''\<rparr>) \<and>
   snd (checkServerHealth w s) =
     s\<lparr>events := events s @ [Fetch (template (API_BASE_URL s) @ ''/debug/test'')]\<rparr>"
proof -
  have "fst (checkServerHealth w s) =
        \<lparr>healthy = False, health_status = None, health_data = None,
         health_error = Some ''Request timeout''\<rparr>"
    if "fetch w (length (requests s)) (template (API_BASE_URL s) @ ''/debug/test'') = Pending \<or>
        fetch w (length (requests s)) (template (API_BASE_URL s) @ ''/debug/test'') = Fulfils ms resp \<and> 8000 < ms"
  proof -
    from that have "withTimeout (fetch w (length (requests s)) (template (API_BASE_URL s) @ ''/debug/test'')) 8000 =
        Inl (Error ''Request timeout'')"
      by auto
    from checkServerHealth_cases(4) [OF this] show ?thesis by simp
  qed
  with checkServerHealth_cases [of w s] show ?thesis by blast
qed

text \<open>The theorem at a healthy host, a 204, a 500 and a host that never answers.\<close>

theorem checkServerHealth_result_witness:
  \<open>fst (checkServerHealth all_ok (initial_state Map.empty)) =
     \<lparr>healthy = True, health_status = Some 200, health_data = Some (JObject [(''ok'', JBool True)]),
      health_error = None\<rparr> \<and>
   fst (checkServerHealth all_204 (initial_state Map.empty)) =
     \<lparr>healthy = False, health_status = None, health_data = None,
      health_error = Some ''Unexpected end of JSON input''\<rparr> \<and>
   fst (checkServerHealth all_500 (initial_state Map.empty)) =
     \<lparr>healthy = False, health_status = Some 500, health_data = None, health_error = None\<rparr> \<and>
   fst (checkServerHealth first_host_down (initial_state Map.empty)) =
     \<lparr>healthy = False, health_status = None, health_data = None,
      health_error = Some ''Request timeout''\<rparr>\<close>
proof -
  let ?s = "initial_state Map.empty"
  let ?url = "template (API_BASE_URL ?s) @ ''/debug/test''"
  have a: \<open>withTimeout (fetch all_ok (length (requests ?s)) ?url) 8000 = Inr (json_response 200 ''{"ok":true}'') \<and>
      ok (json_response 200 ''{"ok":true}'') \<and>
      response_json all_ok (json_response 200 ''{"ok":true}'') = Inr (JObject [(''ok'', JBool True)]) \<and>
      status (json_response 200 ''{"ok":true}'') = 200\<close>
    by code_simp
  have b: "withTimeout (fetch all_204 (length (requests ?s)) ?url) 8000 = Inr (json_response 204 []) \<and>
      ok (json_response 204 []) \<and>
      response_json all_204 (json_response 204 []) = Inl (Error ''Unexpected end of JSON input'')"
    by code_simp
  have c: "withTimeout (fetch all_500 (length (requests ?s)) ?url) 8000 = Inr (json_response 500 ''{}'') \<and>
      \<not> ok (json_response 500 ''{}'') \<and> status (json_response 500 ''{}'') = 500"
    by code_simp
  have d: "fetch first_host_down (length (requests ?s)) ?url = Pending"
    by code_simp
  from checkServerHealth_result
    [where w = all_ok and s = ?s and resp = \<open>json_response 200 ''{"ok":true}''\<close>
       and payload = "JObject [(''ok'', JBool True)]"] a
  have 1: "fst (checkServerHealth all_ok ?s) =
     \<lparr>healthy = True, health_status = Some 200, health_data = Some (JObject [(''ok'', JBool True)]),
      health_error = None\<rparr>"
    by simp
  from checkServerHealth_result
    [where w = all_204 and s = ?s and resp = "json_response 204 []"
       and e = "Error ''Unexpected end of JSON input''"] b
  have 2: "fst (checkServerHealth all_204 ?s) =
     \<lparr>healthy = False, health_status = None, health_data = None,
      health_error = Some ''Unexpected end of JSON input''\<rparr>"
    by simp
  from checkServerHealth_result
    [where w = all_500 and s = ?s and resp = "json_response 500 ''{}''"] c
  have 3: "fst (checkServerHealth all_500 ?s) =
     \<lparr>healthy = False, health_status = Some 500, health_data = None, health_error = None\<rparr>"
    by simp
  from checkServerHealth_result [where w = first_host_down and s = ?s] d
  have 4: "fst (checkServerHealth first_host_down ?s) =
     \<lparr>healthy = False, health_status = None, health_data = None,
      health_error = Some ''Request timeout''\<rparr>"
    by simp
  from 1 2 3 4 show ?thesis by simp
qed

end
